theory Spec2Isabelle
  imports Complex_Main "HOL-Library.Word"
begin

unbundle bit_operations_syntax

section \<open>Serial frame protocol (pages/usb\_ui.py)\<close>

text \<open>
  A Python \<^verbatim>\<open>bytes\<close>/\<^verbatim>\<open>bytearray\<close> is a list of 8-bit words; the integers
  Python computes from them (\<^verbatim>\<open>sum\<close>, \<^verbatim>\<open>int.from_bytes\<close>, \<^verbatim>\<open>struct.unpack\<close>)
  are unbounded and are modelled as \<^typ>\<open>int\<close>.
\<close>

type_synonym byte = "8 word"

definition FRAME_HEADER1 :: byte where
  "FRAME_HEADER1 = 0xAA"

definition FRAME_HEADER2 :: byte where
  "FRAME_HEADER2 = 0xBB"

definition NUM_JOINTS :: nat where
  "NUM_JOINTS = 7"

definition ENC_DATA_SIZE :: nat where
  "ENC_DATA_SIZE = NUM_JOINTS * 2 * 4"

definition FRAME_SIZE :: nat where
  "FRAME_SIZE = 2 + 1 + ENC_DATA_SIZE + 2"

text \<open>\<^verbatim>\<open>FRAME_HDR = b'\xAA\xBB'\<close>, local to \<^verbatim>\<open>serial_communication_thread\<close>.\<close>

definition FRAME_HDR :: "byte list" where
  "FRAME_HDR = [0xAA, 0xBB]"

text \<open>\<^verbatim>\<open>buf.find(pat)\<close>: the lowest index at which \<^verbatim>\<open>pat\<close> occurs, \<^verbatim>\<open>-1\<close>
  (here \<open>None\<close>) when it does not occur.\<close>

fun find_bytes :: "byte list \<Rightarrow> byte list \<Rightarrow> nat option" where
  "find_bytes pat [] = (if pat = [] then Some 0 else None)"
| "find_bytes pat (x # xs) =
     (if take (length pat) (x # xs) = pat then Some 0
      else map_option Suc (find_bytes pat xs))"

text \<open>\<^verbatim>\<open>xs[a:b]\<close> for non-negative \<^verbatim>\<open>a\<close>, \<^verbatim>\<open>b\<close>: Python clips at the end of the
  sequence, as \<open>take\<close> and \<open>drop\<close> do.\<close>

definition py_slice :: "nat \<Rightarrow> nat \<Rightarrow> 'a list \<Rightarrow> 'a list" where
  "py_slice a b xs = take (b - a) (drop a xs)"

text \<open>\<^verbatim>\<open>int.from_bytes(bs, 'little')\<close>.\<close>

definition from_bytes_little :: "byte list \<Rightarrow> int" where
  "from_bytes_little bs = foldr (\<lambda>b acc. uint b + 256 * acc) bs 0"

text \<open>\<^verbatim>\<open>crc_rx = int.from_bytes(frame[-2:], 'little')\<close>.\<close>

definition crc_rx :: "byte list \<Rightarrow> int" where
  "crc_rx frame = from_bytes_little (drop (length frame - 2) frame)"

text \<open>\<^verbatim>\<open>crc_calc = sum(frame[2:2+1+ENC_DATA_SIZE]) & 0xFFFF\<close>.\<close>

definition crc_calc :: "byte list \<Rightarrow> int" where
  "crc_calc frame = sum_list (map uint (py_slice 2 (2 + 1 + ENC_DATA_SIZE) frame)) AND 0xFFFF"

text \<open>\<^verbatim>\<open>struct.unpack('<14I', enc)\<close>: fourteen little-endian unsigned 32-bit integers;
  \<^verbatim>\<open>struct.error\<close> (here \<open>None\<close>) unless \<^verbatim>\<open>enc\<close> has exactly 56 bytes.\<close>

fun unpack_u32s :: "byte list \<Rightarrow> int list" where
  "unpack_u32s (a # b # c # d # rest) = from_bytes_little [a, b, c, d] # unpack_u32s rest"
| "unpack_u32s _ = []"

definition unpack_14I :: "byte list \<Rightarrow> int list option" where
  "unpack_14I enc = (if length enc = 14 * 4 then Some (unpack_u32s enc) else None)"

text \<open>What one pass of the parsing loop has decoded when it reaches the state update:
  the locals \<^verbatim>\<open>sw\<close>, \<^verbatim>\<open>left_arm\<close>, \<^verbatim>\<open>right_arm\<close>.\<close>

record decoded_frame =
  sw :: byte
  left_arm :: "int list"
  right_arm :: "int list"

text \<open>
  The body of the parsing loop from \<^verbatim>\<open>sw = frame[2]\<close> to
  \<^verbatim>\<open>right_arm = list(values[7:])\<close>, on the window \<^verbatim>\<open>frame\<close> already cut out
  of the buffer: \<open>None\<close> where the body runs \<^verbatim>\<open>continue\<close> (checksum mismatch, or
  \<^verbatim>\<open>struct.error\<close>).
\<close>

definition decode_window :: "byte list \<Rightarrow> decoded_frame option" where
  "decode_window frame =
     (if crc_rx frame \<noteq> crc_calc frame then None
      else
        (case unpack_14I (py_slice 3 (3 + ENC_DATA_SIZE) frame) of
           None \<Rightarrow> None
         | Some values \<Rightarrow>
             Some \<lparr>sw = frame ! 2, left_arm = take 7 values, right_arm = drop 7 values\<rparr>))"

text \<open>
  The inner loop \<^verbatim>\<open>while True: i = buf.find(FRAME_HDR) ...\<close> of
  \<^verbatim>\<open>serial_communication_thread\<close>, run on the accumulated buffer. It returns the frames
  decoded, in order, and the buffer left for the text-line scan. The statement
  \<^verbatim>\<open>del buf[:i+FRAME_LEN]\<close> removes the window, together with everything before it,
  before the checksum is compared.
\<close>

function parse_frames :: "byte list \<Rightarrow> decoded_frame list \<times> byte list" where
  "parse_frames buf =
     (case find_bytes FRAME_HDR buf of
        None \<Rightarrow> ([], buf)
      | Some i \<Rightarrow>
          if length buf - i < FRAME_SIZE then ([], buf)
          else
            let frame = py_slice i (i + FRAME_SIZE) buf;
                buf' = drop (i + FRAME_SIZE) buf
            in (case decode_window frame of
                  None \<Rightarrow> parse_frames buf'
                | Some d \<Rightarrow>
                    (case parse_frames buf' of (frames, rest) \<Rightarrow> (d # frames, rest))))"
  by pat_completeness auto
termination
  by (relation "measure length") (auto simp: FRAME_SIZE_def ENC_DATA_SIZE_def NUM_JOINTS_def)

declare parse_frames.simps [simp del]

text \<open>
  The frame format in the specification's words, to compare the parser with: the checksum
  law on a 61-byte frame, and the little-endian unsigned 32-bit integer that starts at
  byte \<open>j\<close>.
\<close>

definition checksum_law :: "byte list \<Rightarrow> bool" where
  "checksum_law b \<longleftrightarrow>
     sum_list (map uint (py_slice 2 59 b)) mod 65536 = uint (b ! 59) + 256 * uint (b ! 60)"

definition le_u32_at :: "byte list \<Rightarrow> nat \<Rightarrow> int" where
  "le_u32_at b j =
     uint (b ! j) + 256 * uint (b ! (j + 1)) + 65536 * uint (b ! (j + 2))
       + 16777216 * uint (b ! (j + 3))"

text \<open>The frame of the specification's scenario A: header, switch byte 1, 56 zero
  bytes, checksum 1.\<close>

definition scenario_A :: "byte list" where
  "scenario_A = [0xAA, 0xBB, 0x01] @ replicate 56 0 @ [0x01, 0x00]"

text \<open>A frame with the same header and payload whose checksum bytes are wrong.\<close>

definition corrupted_A :: "byte list" where
  "corrupted_A = [0xAA, 0xBB, 0x01] @ replicate 56 0 @ [0x02, 0x00]"

section \<open>Python values used by several modules\<close>

text \<open>
  A Python float is a real number that is a double. Comparisons and stores need no
  rounding. Where the code truncates a product of floats to an integer (the millisecond
  of a task id, the nanosecond stamps of a sample), the product is rounded as the
  machine does: \<^verbatim>\<open>a * b\<close> is the double nearest to the exact product, ties to the
  even significand (IEEE 754, for results in the normal range, where clock values and
  their multiples by 1000 or 1000000000 lie). The spacing of doubles around \<open>x\<close> is
  \<open>2\<close> to the power \<open>\<lfloor>log\<^sub>2 |x|\<rfloor> - 52\<close>. The frame statistics of the reader
  (interval average and rate) are computed over the reals.
  \<^verbatim>\<open>int(x)\<close> truncates towards zero and \<^verbatim>\<open>str(n)\<close> prints an integer in decimal.
\<close>

definition py_int :: "real \<Rightarrow> int" where
  "py_int x = (if 0 \<le> x then \<lfloor>x\<rfloor> else \<lceil>x\<rceil>)"

definition round_half_even :: "real \<Rightarrow> int" where
  "round_half_even y =
     (let f = \<lfloor>y\<rfloor>
      in if y - of_int f < 1 / 2 then f
         else if y - of_int f > 1 / 2 then f + 1
         else if even f then f else f + 1)"

definition round_double :: "real \<Rightarrow> real" where
  "round_double x =
     (if x = 0 then 0
      else
        let u = 2 powr (of_int \<lfloor>log 2 \<bar>x\<bar>\<rfloor> - 52)
        in of_int (round_half_even (x / u)) * u)"

definition double_mul :: "real \<Rightarrow> real \<Rightarrow> real" where
  "double_mul a b = round_double (a * b)"

definition digit_char :: "nat \<Rightarrow> char" where
  "digit_char d = char_of (48 + d)"

function str_nat :: "nat \<Rightarrow> string" where
  "str_nat n = (if n < 10 then [digit_char n] else str_nat (n div 10) @ [digit_char (n mod 10)])"
  by pat_completeness auto
termination
  by (relation "measure id") auto

declare str_nat.simps [simp del]

definition str_int :: "int \<Rightarrow> string" where
  "str_int i = (if i < 0 then CHR ''-'' # str_nat (nat (- i)) else str_nat (nat i))"

text \<open>Exceptions, with what \<^verbatim>\<open>str(e)\<close> gives: a \<^verbatim>\<open>KeyError\<close> prints its key in
  quotes, the others print their message.\<close>

datatype py_exception =
    KeyError string
  | IndexError string
  | Raised string

fun str_exception :: "py_exception \<Rightarrow> string" where
  "str_exception (KeyError k) = CHR 0x27 # k @ [CHR 0x27]"
| "str_exception (IndexError m) = m"
| "str_exception (Raised m) = m"

text \<open>\<^verbatim>\<open>xs[i]\<close> for a non-negative index.\<close>

definition py_index :: "'a list \<Rightarrow> nat \<Rightarrow> py_exception + 'a" where
  "py_index xs i =
     (if i < length xs then Inr (xs ! i) else Inl (IndexError ''list index out of range''))"

section \<open>Shared reader state and recording buffer (pages/usb\_ui.py)\<close>

text \<open>The module globals \<^verbatim>\<open>stats\<close>, \<^verbatim>\<open>latest_enc_R\<close>, \<^verbatim>\<open>latest_enc_L\<close>,
  \<^verbatim>\<open>recorded_encoders\<close>, \<^verbatim>\<open>recording_active\<close> and \<^verbatim>\<open>recent_frames\<close>. An entry of
  \<^verbatim>\<open>recorded_encoders\<close> is the dictionary with the keys \<^verbatim>\<open>timestamp\<close>,
  \<^verbatim>\<open>left_arm\<close>, \<^verbatim>\<open>right_arm\<close>. A line of \<^verbatim>\<open>recent_frames\<close> is kept as the values
  it is formatted from, in the order they are printed (time, right, left).\<close>

record comm_stats =
  last_ts :: real
  ema_interval_ms :: "real option"
  fps :: real

record recorded_sample =
  timestamp :: real
  sample_left_arm :: "int list"
  sample_right_arm :: "int list"

record reader_state =
  latest_enc_R :: "int list"
  latest_enc_L :: "int list"
  recorded_encoders :: "recorded_sample list"
  recording_active :: bool
  stats :: comm_stats
  recent_frames :: "(real \<times> int list \<times> int list) list"

text \<open>\<^verbatim>\<open>deque(maxlen=n).append(x)\<close>: the oldest element leaves when the deque is full.\<close>

definition deque_append :: "nat \<Rightarrow> 'a list \<Rightarrow> 'a \<Rightarrow> 'a list" where
  "deque_append maxlen xs x = (let ys = xs @ [x] in drop (length ys - maxlen) ys)"

text \<open>The \<^verbatim>\<open>with stats_lock\<close> block that follows a decoded frame.\<close>

definition update_stats :: "real \<Rightarrow> comm_stats \<Rightarrow> comm_stats" where
  "update_stats ts st =
     (let st1 =
        (if last_ts st \<noteq> 0 then
           let dt = (ts - last_ts st) * 1000;
               ema = (case ema_interval_ms st of
                        None \<Rightarrow> dt
                      | Some e \<Rightarrow> (1 - 0.2) * e + 0.2 * dt)
           in st\<lparr>ema_interval_ms := Some ema,
                 fps := (if ema > 0 then 1000 / ema else fps st)\<rparr>
         else st)
      in st1\<lparr>last_ts := ts\<rparr>)"

text \<open>
  The rest of the loop body, from \<^verbatim>\<open>ts = time.time()\<close> on, for a frame the pass has
  decoded: \<^verbatim>\<open>ts\<close> is the clock value read there.
\<close>

definition store_frame :: "real \<Rightarrow> decoded_frame \<Rightarrow> reader_state \<Rightarrow> reader_state" where
  "store_frame ts d s =
     s\<lparr>latest_enc_L := left_arm d,
       latest_enc_R := right_arm d,
       recorded_encoders :=
         (if recording_active s
          then recorded_encoders s @
                 [\<lparr>timestamp = ts, sample_left_arm = left_arm d, sample_right_arm = right_arm d\<rparr>]
          else recorded_encoders s),
       stats := update_stats ts (stats s),
       recent_frames := deque_append 60 (recent_frames s) (ts, right_arm d, left_arm d)\<rparr>"

subsection \<open>The button callback \<^verbatim>\<open>handle_all_buttons\<close>\<close>

datatype trigger = save_btn | clear_btn | save_as_btn

datatype csv_cell = CellFloat real | CellInt int | CellStr string

text \<open>What the callback reports in \<^verbatim>\<open>status_display\<close>.\<close>

datatype button_status =
    NoPort
  | RecordingStarted
  | RecordingStopped
  | Cleared nat
  | NothingToSave
  | SaveDone nat
  | SaveFailed py_exception

text \<open>Python truthiness of the port store and of a list.\<close>

definition truthy_str :: "string option \<Rightarrow> bool" where
  "truthy_str v = (case v of None \<Rightarrow> False | Some s \<Rightarrow> s \<noteq> [])"

text \<open>The field names, built by the two \<^verbatim>\<open>for i in range(NUM_JOINTS)\<close> loops.\<close>

definition fieldnames :: "string list" where
  "fieldnames =
     [''timestamp'', ''datetime'']
       @ map (\<lambda>i. ''right_joint_'' @ str_int (int i + 1)) [0..<NUM_JOINTS]
       @ map (\<lambda>i. ''left_joint_'' @ str_int (int i + 1)) [0..<NUM_JOINTS]"

text \<open>\<^verbatim>\<open>for i in range(NUM_JOINTS): row[f'<prefix>{i+1}'] = arm[i]\<close>, over the indices
  still to do; an arm shorter than seven values raises \<^verbatim>\<open>IndexError\<close>.\<close>

fun fill_joints ::
  "string \<Rightarrow> int list \<Rightarrow> nat list \<Rightarrow> (string \<rightharpoonup> csv_cell) \<Rightarrow> py_exception + (string \<rightharpoonup> csv_cell)"
where
  "fill_joints prefix arm [] row = Inr row"
| "fill_joints prefix arm (i # is) row =
     (case py_index arm i of
        Inl e \<Rightarrow> Inl e
      | Inr v \<Rightarrow> fill_joints prefix arm is (row(prefix @ str_int (int i + 1) \<mapsto> CellInt v)))"

text \<open>The dictionary \<^verbatim>\<open>row\<close> of one entry. \<^verbatim>\<open>strftime\<close> stands for
  \<^verbatim>\<open>datetime.fromtimestamp(t).strftime('%Y-%m-%d %H:%M:%S.%f')[:-3]\<close>, which depends on the
  local time zone.\<close>

definition entry_row ::
  "(real \<Rightarrow> string) \<Rightarrow> recorded_sample \<Rightarrow> py_exception + (string \<rightharpoonup> csv_cell)"
where
  "entry_row strftime entry =
     (let row = [''timestamp'' \<mapsto> CellFloat (timestamp entry),
                 ''datetime'' \<mapsto> CellStr (strftime (timestamp entry))]
      in case fill_joints ''right_joint_'' (sample_right_arm entry) [0..<NUM_JOINTS] row of
           Inl e \<Rightarrow> Inl e
         | Inr row1 \<Rightarrow> fill_joints ''left_joint_'' (sample_left_arm entry) [0..<NUM_JOINTS] row1)"

text \<open>\<^verbatim>\<open>csv.DictWriter.writerow\<close>: the values in the order of the field names, the
  empty string for a missing key. (Every key of \<^verbatim>\<open>row\<close> is a field name, so the
  writer's check for extra keys passes.)\<close>

definition writerow :: "string list \<Rightarrow> (string \<rightharpoonup> csv_cell) \<Rightarrow> csv_cell list" where
  "writerow names row = map (\<lambda>k. case row k of None \<Rightarrow> CellStr [] | Some v \<Rightarrow> v) names"

text \<open>The loop \<^verbatim>\<open>for entry in recorded_encoders\<close>: the file so far, and the exception
  that ended the loop, if any.\<close>

fun write_entries ::
  "(real \<Rightarrow> string) \<Rightarrow> recorded_sample list \<Rightarrow> csv_cell list list
     \<Rightarrow> py_exception option \<times> csv_cell list list"
where
  "write_entries strftime [] file = (None, file)"
| "write_entries strftime (entry # entries) file =
     (case entry_row strftime entry of
        Inl e \<Rightarrow> (Some e, file)
      | Inr row \<Rightarrow> write_entries strftime entries (file @ [writerow fieldnames row]))"

text \<open>
  \<^verbatim>\<open>handle_all_buttons\<close>, for the button that fired: the new state, the status shown,
  and the rows of the CSV file if one was opened (a file is a list of rows, a row a list
  of cells; the header row holds the field names). The layout values the callback also
  returns are left out, as is its copy of the page's device flag into
  \<^verbatim>\<open>device_active\<close>, which only selects the wording of a message; opening the file
  is taken to succeed.
\<close>

definition handle_all_buttons ::
  "(real \<Rightarrow> string) \<Rightarrow> trigger \<Rightarrow> string option \<Rightarrow> string option \<Rightarrow> reader_state
     \<Rightarrow> reader_state \<times> button_status \<times> csv_cell list list option"
where
  "handle_all_buttons strftime trigger_id port_data current_text s =
     (case trigger_id of
        save_btn \<Rightarrow>
          if \<not> truthy_str port_data then (s, NoPort, None)
          else if current_text = Some ''Recording''
          then (s\<lparr>recording_active := True\<rparr>, RecordingStarted, None)
          else (s\<lparr>recording_active := False\<rparr>, RecordingStopped, None)
      | clear_btn \<Rightarrow>
          (s\<lparr>recorded_encoders := []\<rparr>, Cleared (length (recorded_encoders s)), None)
      | save_as_btn \<Rightarrow>
          if recorded_encoders s = [] then (s, NothingToSave, None)
          else
            (case write_entries strftime (recorded_encoders s) [map CellStr fieldnames] of
               (Some e, file) \<Rightarrow> (s, SaveFailed e, Some file)
             | (None, file) \<Rightarrow> (s, SaveDone (length (recorded_encoders s)), Some file)))"

text \<open>What happens to the reader state, in the order the two threads take the lock:
  a frame is decoded at a clock value, or a button fires.\<close>

datatype reader_event =
    Decoded real decoded_frame
  | Button trigger "string option" "string option"

fun reader_step :: "(real \<Rightarrow> string) \<Rightarrow> reader_state \<Rightarrow> reader_event \<Rightarrow> reader_state" where
  "reader_step strftime s (Decoded ts d) = store_frame ts d s"
| "reader_step strftime s (Button trigger_id port_data current_text) =
     fst (handle_all_buttons strftime trigger_id port_data current_text s)"

definition reader_run :: "(real \<Rightarrow> string) \<Rightarrow> reader_state \<Rightarrow> reader_event list \<Rightarrow> reader_state" where
  "reader_run strftime s evs = foldl (reader_step strftime) s evs"

text \<open>The sample the reader stores for a frame decoded at \<open>ts\<close>.\<close>

definition sample_of :: "real \<Rightarrow> decoded_frame \<Rightarrow> recorded_sample" where
  "sample_of ts d = \<lparr>timestamp = ts, sample_left_arm = left_arm d, sample_right_arm = right_arm d\<rparr>"

text \<open>The CSV contract in the specification's words: the header row, and the row of one
  sample.\<close>

definition csv_header :: "csv_cell list" where
  "csv_header = map CellStr
     [''timestamp'', ''datetime'',
      ''right_joint_1'', ''right_joint_2'', ''right_joint_3'', ''right_joint_4'',
      ''right_joint_5'', ''right_joint_6'', ''right_joint_7'',
      ''left_joint_1'', ''left_joint_2'', ''left_joint_3'', ''left_joint_4'',
      ''left_joint_5'', ''left_joint_6'', ''left_joint_7'']"

definition csv_row :: "(real \<Rightarrow> string) \<Rightarrow> recorded_sample \<Rightarrow> csv_cell list" where
  "csv_row strftime e =
     [CellFloat (timestamp e), CellStr (strftime (timestamp e))]
       @ map CellInt (sample_right_arm e) @ map CellInt (sample_left_arm e)"

text \<open>The module's globals when it is loaded, and three frames to run it on.\<close>

definition initial_reader_state :: reader_state where
  "initial_reader_state =
     \<lparr>latest_enc_R = replicate NUM_JOINTS 0,
      latest_enc_L = replicate NUM_JOINTS 0,
      recorded_encoders = [],
      recording_active = False,
      stats = \<lparr>last_ts = 0, ema_interval_ms = None, fps = 0\<rparr>,
      recent_frames = []\<rparr>"

definition frame_F1 :: decoded_frame where
  "frame_F1 = \<lparr>sw = 0, left_arm = [1, 2, 3, 4, 5, 6, 7], right_arm = [8, 9, 10, 11, 12, 13, 14]\<rparr>"

definition frame_F2 :: decoded_frame where
  "frame_F2 = \<lparr>sw = 0, left_arm = [21, 22, 23, 24, 25, 26, 27],
                right_arm = [28, 29, 30, 31, 32, 33, 34]\<rparr>"

definition frame_F3 :: decoded_frame where
  "frame_F3 = \<lparr>sw = 1, left_arm = [41, 42, 43, 44, 45, 46, 47],
                right_arm = [48, 49, 50, 51, 52, 53, 54]\<rparr>"

section \<open>Stream handler (grpc\_stream\_handler.py)\<close>

record StreamSample =
  sample_timestamp :: real
  angles :: "real list"
  sequence :: int
  session_id :: string
  capture_time_ns :: int
  send_time_ns :: int

text \<open>The dictionary \<^verbatim>\<open>self.stats\<close>.\<close>

record handler_stats =
  total_samples :: int
  processed_samples :: int
  dropped_samples :: int
  last_fps :: real
  start_time :: "real option"

text \<open>
  A registered callback is an arbitrary callable: applied to a sample it may change
  anything it has access to (\<open>'w\<close>, the state of the subscribers) and may raise.
\<close>

type_synonym 'w callback = "StreamSample \<Rightarrow> 'w \<Rightarrow> py_exception option \<times> 'w"

text \<open>\<^verbatim>\<open>GRPCStreamHandler\<close>. The queue holds samples and the \<^verbatim>\<open>None\<close> that
  \<^verbatim>\<open>stop\<close> puts as a signal to end.\<close>

record 'w GRPCStreamHandler =
  max_queue_size :: int
  data_queue :: "StreamSample option list"
  callbacks :: "'w callback list"
  is_running :: bool
  handler_stats :: handler_stats

text \<open>\<^verbatim>\<open>queue.Queue(maxsize)\<close>: \<^verbatim>\<open>put_nowait\<close> raises \<^verbatim>\<open>queue.Full\<close> when
  \<^verbatim>\<open>maxsize > 0\<close> and the queue holds \<^verbatim>\<open>maxsize\<close> items.\<close>

definition queue_full :: "'w GRPCStreamHandler \<Rightarrow> bool" where
  "queue_full h \<longleftrightarrow> 0 < max_queue_size h \<and> max_queue_size h \<le> int (length (data_queue h))"

text \<open>The sample \<^verbatim>\<open>add_sample\<close> builds; \<^verbatim>\<open>x or y\<close> on integers takes \<^verbatim>\<open>y\<close> when
  \<^verbatim>\<open>x\<close> is 0.\<close>

definition make_sample :: "real \<Rightarrow> real list \<Rightarrow> int \<Rightarrow> string \<Rightarrow> int \<Rightarrow> int \<Rightarrow> StreamSample" where
  "make_sample now angles_arg sequence_arg session_id_arg capture_arg send_arg =
     \<lparr>sample_timestamp = now,
      angles = angles_arg,
      sequence = sequence_arg,
      session_id = session_id_arg,
      capture_time_ns = (if capture_arg \<noteq> 0 then capture_arg else py_int (double_mul now 1000000000)),
      send_time_ns = (if send_arg \<noteq> 0 then send_arg else py_int (double_mul now 1000000000))\<rparr>"

text \<open>\<^verbatim>\<open>add_sample\<close>; \<^verbatim>\<open>now\<close> is the value of \<^verbatim>\<open>time.time()\<close>. The result is the
  returned flag and the handler afterwards.\<close>

definition add_sample ::
  "'w GRPCStreamHandler \<Rightarrow> real \<Rightarrow> real list \<Rightarrow> int \<Rightarrow> string \<Rightarrow> int \<Rightarrow> int
     \<Rightarrow> bool \<times> 'w GRPCStreamHandler"
where
  "add_sample h now angles_arg sequence_arg session_id_arg capture_arg send_arg =
     (if \<not> is_running h then (False, h)
      else
        let sample = make_sample now angles_arg sequence_arg session_id_arg capture_arg send_arg
        in if queue_full h
           then (False,
                 h\<lparr>handler_stats := (handler_stats h)
                      \<lparr>dropped_samples := dropped_samples (handler_stats h) + 1\<rparr>\<rparr>)
           else (True,
                 h\<lparr>data_queue := data_queue h @ [Some sample],
                   handler_stats := (handler_stats h)
                      \<lparr>total_samples := total_samples (handler_stats h) + 1\<rparr>\<rparr>))"

text \<open>\<^verbatim>\<open>_process_sample\<close>: every callback of the copied list in turn; an exception is
  caught and printed, and the loop goes on with what the callback had done so far.\<close>

fun run_callbacks :: "'w callback list \<Rightarrow> StreamSample \<Rightarrow> 'w \<Rightarrow> 'w" where
  "run_callbacks [] sample w = w"
| "run_callbacks (cb # cbs) sample w =
     (case cb sample w of (_, w') \<Rightarrow> run_callbacks cbs sample w')"

definition process_sample :: "'w GRPCStreamHandler \<Rightarrow> StreamSample \<Rightarrow> 'w \<Rightarrow> 'w" where
  "process_sample h sample w = run_callbacks (callbacks h) sample w"

text \<open>The locals of \<^verbatim>\<open>_worker_loop\<close>, and whether its thread is still in the loop.\<close>

record worker_locals =
  last_stats_time :: real
  samples_since_last_stats :: int
  in_loop :: bool

text \<open>
  One pass of \<^verbatim>\<open>while self.is_running\<close> in \<^verbatim>\<open>_worker_loop\<close>, on the handler, the
  locals and the subscribers' state; \<^verbatim>\<open>current_time\<close> is the clock read after the
  callbacks. An empty queue is the \<^verbatim>\<open>queue.Empty\<close> of the timed-out \<^verbatim>\<open>get\<close>.
\<close>

definition worker_pass ::
  "real \<Rightarrow> 'w GRPCStreamHandler \<times> worker_locals \<times> 'w
     \<Rightarrow> 'w GRPCStreamHandler \<times> worker_locals \<times> 'w"
where
  "worker_pass current_time st =
     (case st of (h, l, w) \<Rightarrow>
        if \<not> in_loop l then (h, l, w)
        else if \<not> is_running h then (h, l\<lparr>in_loop := False\<rparr>, w)
        else
          (case data_queue h of
             [] \<Rightarrow> (h, l, w)
           | None # q \<Rightarrow> (h\<lparr>data_queue := q\<rparr>, l\<lparr>in_loop := False\<rparr>, w)
           | Some sample # q \<Rightarrow>
               let w' = process_sample h sample w;
                   h1 = h\<lparr>data_queue := q,
                          handler_stats := (handler_stats h)
                            \<lparr>processed_samples := processed_samples (handler_stats h) + 1\<rparr>\<rparr>;
                   n = samples_since_last_stats l + 1
               in if current_time - last_stats_time l \<ge> 5
                  then (h1\<lparr>handler_stats := (handler_stats h1)
                             \<lparr>last_fps := real_of_int n / (current_time - last_stats_time l)\<rparr>\<rparr>,
                        l\<lparr>last_stats_time := current_time, samples_since_last_stats := 0\<rparr>,
                        w')
                  else (h1, l\<lparr>samples_since_last_stats := n\<rparr>, w')))"

text \<open>The producer and the worker thread take turns in some order: a call of
  \<^verbatim>\<open>add_sample\<close>, or one pass of the worker loop.\<close>

datatype stream_event =
    Submit real "real list" int string int int
  | Work real

fun stream_step ::
  "'w GRPCStreamHandler \<times> worker_locals \<times> 'w \<Rightarrow> stream_event
     \<Rightarrow> 'w GRPCStreamHandler \<times> worker_locals \<times> 'w"
where
  "stream_step (h, l, w) (Submit now a sq sid cap sent) =
     (snd (add_sample h now a sq sid cap sent), l, w)"
| "stream_step st (Work current_time) = worker_pass current_time st"

definition stream_run ::
  "'w GRPCStreamHandler \<times> worker_locals \<times> 'w \<Rightarrow> stream_event list
     \<Rightarrow> 'w GRPCStreamHandler \<times> worker_locals \<times> 'w"
where
  "stream_run st evs = foldl stream_step st evs"

text \<open>The queue stays below its capacity: no \<^verbatim>\<open>add_sample\<close> of the run meets a full
  queue.\<close>

fun below_capacity ::
  "'w GRPCStreamHandler \<times> worker_locals \<times> 'w \<Rightarrow> stream_event list \<Rightarrow> bool"
where
  "below_capacity st [] = True"
| "below_capacity st (Work t # evs) = below_capacity (stream_step st (Work t)) evs"
| "below_capacity st (ev # evs) =
     (\<not> queue_full (fst st) \<and> below_capacity (stream_step st ev) evs)"

text \<open>The samples a run submits, in submission order.\<close>

fun submitted :: "stream_event list \<Rightarrow> StreamSample list" where
  "submitted [] = []"
| "submitted (Submit now a sq sid cap sent # evs) =
     make_sample now a sq sid cap sent # submitted evs"
| "submitted (Work t # evs) = submitted evs"

text \<open>In-order delivery, in the specification's words: the samples one after the other,
  each to every callback in registration order.\<close>

definition deliver_in_order :: "'w callback list \<Rightarrow> StreamSample list \<Rightarrow> 'w \<Rightarrow> 'w" where
  "deliver_in_order cbs samples w = foldl (\<lambda>w' sample. run_callbacks cbs sample w') w samples"

text \<open>A subscriber that writes down, under its number \<open>k\<close>, each sample it is called
  with, and then raises whenever \<open>raises\<close> says so.\<close>

definition observer :: "nat \<Rightarrow> (StreamSample \<Rightarrow> bool) \<Rightarrow> (nat \<times> StreamSample) list callback" where
  "observer k raises sample w =
     (if raises sample then Some (Raised ''callback failed'') else None, w @ [(k, sample)])"

text \<open>What subscriber \<open>k\<close> has written down.\<close>

definition observed_by :: "nat \<Rightarrow> (nat \<times> StreamSample) list \<Rightarrow> StreamSample list" where
  "observed_by k w = map snd (filter (\<lambda>p. fst p = k) w)"

text \<open>The samples waiting in the queue, oldest first.\<close>

definition queued_samples :: "'w GRPCStreamHandler \<Rightarrow> StreamSample list" where
  "queued_samples h = List.map_filter (\<lambda>x. x) (data_queue h)"

text \<open>A handler with the default capacity of 1000 whose queue is full, after
  \<^verbatim>\<open>stop\<close> and while running.\<close>

definition sample0 :: StreamSample where
  "sample0 = make_sample 1 [1, 2] 1 ''s'' 0 0"

definition stopped_full_handler :: "unit GRPCStreamHandler" where
  "stopped_full_handler =
     \<lparr>max_queue_size = 1000,
      data_queue = replicate 1000 (Some sample0),
      callbacks = [],
      is_running = False,
      handler_stats = \<lparr>total_samples = 1000, processed_samples = 0, dropped_samples = 0,
                        last_fps = 0, start_time = Some 0\<rparr>\<rparr>"

definition running_full_handler :: "unit GRPCStreamHandler" where
  "running_full_handler = stopped_full_handler\<lparr>is_running := True\<rparr>"

text \<open>The state in which the worker loop keeps going and the queue holds samples only.\<close>

definition worker_active :: "'w GRPCStreamHandler \<times> worker_locals \<times> 'w \<Rightarrow> bool" where
  "worker_active st \<longleftrightarrow>
     is_running (fst st) \<and> in_loop (fst (snd st)) \<and> None \<notin> set (data_queue (fst st))"

text \<open>A running handler with two subscribers, the first of which raises on every sample,
  the worker's locals when its thread starts, and a run in which the producer and the
  worker alternate.\<close>

definition observing_handler :: "(nat \<times> StreamSample) list GRPCStreamHandler" where
  "observing_handler =
     \<lparr>max_queue_size = 1000,
      data_queue = [],
      callbacks = map (\<lambda>j. observer j (\<lambda>sample. j = 0)) [0..<2],
      is_running = True,
      handler_stats = \<lparr>total_samples = 0, processed_samples = 0, dropped_samples = 0,
                        last_fps = 0, start_time = Some 0\<rparr>\<rparr>"

definition fresh_locals :: worker_locals where
  "fresh_locals = \<lparr>last_stats_time = 0, samples_since_last_stats = 0, in_loop = True\<rparr>"

definition example_run :: "stream_event list" where
  "example_run =
     [Submit 1 [1] 1 ''s'' 7 7, Work 1, Submit 2 [2] 2 ''s'' 7 7, Submit 3 [3] 3 ''s'' 7 7]"

section \<open>Background worker (pages/wifi\_ui\_1.py)\<close>

datatype TaskType =
    APPLY_GAINS
  | SEND_SAVE
  | SEND_CLEAR
  | SEND_HOMING
  | SEND_TELEOP
  | SEND_DELETE
  | SEND_POWER_OFF

text \<open>\<^verbatim>\<open>task_type.value\<close>.\<close>

fun TaskType_value :: "TaskType \<Rightarrow> string" where
  "TaskType_value APPLY_GAINS = ''apply_gains''"
| "TaskType_value SEND_SAVE = ''send_save''"
| "TaskType_value SEND_CLEAR = ''send_clear''"
| "TaskType_value SEND_HOMING = ''send_homing''"
| "TaskType_value SEND_TELEOP = ''send_teleop''"
| "TaskType_value SEND_DELETE = ''send_delete''"
| "TaskType_value SEND_POWER_OFF = ''send_power_off''"

text \<open>The values that travel as task parameters and call results (\<^verbatim>\<open>Any\<close>).\<close>

datatype py_value = PyNone | PyFloat real | PyStr string | PyList "real list"

record BackgroundTask =
  task_id :: string
  task_type :: TaskType
  params :: "string \<rightharpoonup> py_value"
  task_timestamp :: real

record TaskResult =
  result_task_id :: string
  success :: bool
  result :: py_value
  error :: string
  result_timestamp :: real

text \<open>\<^verbatim>\<open>d.get(key, default)\<close>.\<close>

definition dict_get :: "(string \<rightharpoonup> py_value) \<Rightarrow> string \<Rightarrow> py_value \<Rightarrow> py_value" where
  "dict_get d key dflt = (case d key of None \<Rightarrow> dflt | Some v \<Rightarrow> v)"

text \<open>
  The worker reaches the RPC client and the data manager through the module objects
  \<^verbatim>\<open>client\<close> and \<^verbatim>\<open>grpc_data_manager\<close>, whichever modules the imports found. A call
  of one of their functions returns a value or raises; the calls the worker makes are
  listed here with their arguments.
\<close>

datatype client_call =
    Send_gravity_comp_gain string int py_value py_value
  | Send_save_command string int py_value py_value
  | Send_delete_command string int py_value
  | Send_homing_command string int py_value
  | Send_master_teleop_command string int py_value
  | Send_power_off_command string int py_value

datatype manager_call =
    Update_gain_values py_value py_value
  | Clear_poses
  | Reset_all_data

record modules =
  GRPC_CLIENT_AVAILABLE :: bool
  client :: "client_call \<Rightarrow> py_exception + py_value"
  grpc_data_manager :: "manager_call \<Rightarrow> py_exception option"

text \<open>The source's message for a missing client module is Korean text; this ASCII
  string stands for it.\<close>

definition MSG_NO_CLIENT_MODULE :: string where
  "MSG_NO_CLIENT_MODULE = ''gRPC client module missing''"

text \<open>A data-manager call after a client call that returned \<open>r\<close>.\<close>

definition then_manager :: "modules \<Rightarrow> manager_call \<Rightarrow> py_value \<Rightarrow> py_exception + py_value" where
  "then_manager m c r = (case grpc_data_manager m c of Some e \<Rightarrow> Inl e | None \<Rightarrow> Inr r)"

text \<open>The \<^verbatim>\<open>try\<close> block of \<^verbatim>\<open>_execute_task\<close>: the value of \<^verbatim>\<open>result\<close>, or the
  exception that left the block. (\<^verbatim>\<open>TaskType\<close> has no eighth member, so the final
  \<^verbatim>\<open>else: raise ValueError\<close> has no case here.)\<close>

definition try_block :: "modules \<Rightarrow> string \<Rightarrow> int \<Rightarrow> BackgroundTask \<Rightarrow> py_exception + py_value" where
  "try_block m ip port task =
     (case task_type task of
        APPLY_GAINS \<Rightarrow>
          (case params task ''shoulder_gain'' of
             None \<Rightarrow> Inl (KeyError ''shoulder_gain'')
           | Some sg \<Rightarrow>
               (case params task ''joint_gain'' of
                  None \<Rightarrow> Inl (KeyError ''joint_gain'')
                | Some jg \<Rightarrow>
                    (case client m (Send_gravity_comp_gain ip port sg jg) of
                       Inl e \<Rightarrow> Inl e
                     | Inr r \<Rightarrow> then_manager m (Update_gain_values sg jg) r)))
      | SEND_SAVE \<Rightarrow>
          client m (Send_save_command ip port (PyStr ''SAVE'')
                      (dict_get (params task) ''angles'' (PyList [])))
      | SEND_CLEAR \<Rightarrow>
          (case client m (Send_delete_command ip port (PyStr ''CLEAR_POSES'')) of
             Inl e \<Rightarrow> Inl e
           | Inr r \<Rightarrow> then_manager m Clear_poses r)
      | SEND_HOMING \<Rightarrow> client m (Send_homing_command ip port (PyStr ''GO_HOME''))
      | SEND_TELEOP \<Rightarrow>
          client m (Send_master_teleop_command ip port
                      (dict_get (params task) ''command'' (PyStr ''START'')))
      | SEND_DELETE \<Rightarrow>
          (let command = dict_get (params task) ''command'' (PyStr ''DELETE_ALL'')
           in case client m (Send_delete_command ip port command) of
                Inl e \<Rightarrow> Inl e
              | Inr r \<Rightarrow>
                  if command = PyStr ''DELETE_ALL'' then then_manager m Reset_all_data r
                  else Inr r)
      | SEND_POWER_OFF \<Rightarrow> client m (Send_power_off_command ip port (PyStr ''POWER_OFF'')))"

text \<open>\<^verbatim>\<open>_execute_task\<close>; \<^verbatim>\<open>now\<close> is the clock value the \<^verbatim>\<open>TaskResult\<close> takes as its
  timestamp.\<close>

definition execute_task :: "modules \<Rightarrow> string \<times> int \<Rightarrow> real \<Rightarrow> BackgroundTask \<Rightarrow> TaskResult" where
  "execute_task m connection now task =
     (if \<not> GRPC_CLIENT_AVAILABLE m
      then \<lparr>result_task_id = task_id task, success = False, result = PyNone,
             error = MSG_NO_CLIENT_MODULE, result_timestamp = now\<rparr>
      else
        (case try_block m (fst connection) (snd connection) task of
           Inr r \<Rightarrow>
             \<lparr>result_task_id = task_id task, success = True, result = r,
              error = [], result_timestamp = now\<rparr>
         | Inl e \<Rightarrow>
             \<lparr>result_task_id = task_id task, success = False, result = PyNone,
              error = str_exception e, result_timestamp = now\<rparr>))"

text \<open>\<^verbatim>\<open>BackgroundWorker\<close>: two unbounded queues, the running flag and the connection
  data (\<^verbatim>\<open>ip\<close>, \<^verbatim>\<open>port\<close>).\<close>

record BackgroundWorker =
  task_queue :: "BackgroundTask list"
  result_queue :: "TaskResult list"
  running :: bool
  connection_data :: "string \<times> int"

text \<open>\<^verbatim>\<open>submit_task\<close>: \<^verbatim>\<open>now\<close> is the \<^verbatim>\<open>time.time()\<close> of the task id, \<^verbatim>\<open>created\<close> the
  one the task takes as its timestamp; \<^verbatim>\<open>time.time() * 1000\<close> is a product of floats.
  The queue has no bound, so \<^verbatim>\<open>put_nowait\<close> does not raise \<^verbatim>\<open>queue.Full\<close>.\<close>

definition submit_task ::
  "BackgroundWorker \<Rightarrow> real \<Rightarrow> real \<Rightarrow> TaskType \<Rightarrow> (string \<rightharpoonup> py_value)
     \<Rightarrow> string \<times> BackgroundWorker"
where
  "submit_task w now created tt ps =
     (let tid = TaskType_value tt @ ''_'' @ str_int (py_int (double_mul now 1000));
          task = \<lparr>task_id = tid, task_type = tt, params = ps, task_timestamp = created\<rparr>
      in (tid, w\<lparr>task_queue := task_queue w @ [task]\<rparr>))"

text \<open>One pass of \<^verbatim>\<open>while self.running\<close> in \<^verbatim>\<open>_worker_loop\<close>; an empty queue is the
  \<^verbatim>\<open>queue.Empty\<close> of the timed-out \<^verbatim>\<open>get\<close>. The modules' answers and the clock are
  those of this pass.\<close>

definition worker_loop_pass :: "BackgroundWorker \<Rightarrow> modules \<times> real \<Rightarrow> BackgroundWorker" where
  "worker_loop_pass w env =
     (if \<not> running w then w
      else
        (case task_queue w of
           [] \<Rightarrow> w
         | task # q \<Rightarrow>
             w\<lparr>task_queue := q,
               result_queue := result_queue w
                 @ [execute_task (fst env) (connection_data w) (snd env) task]\<rparr>))"

definition worker_loop :: "BackgroundWorker \<Rightarrow> (modules \<times> real) list \<Rightarrow> BackgroundWorker" where
  "worker_loop w envs = foldl worker_loop_pass w envs"

subsection \<open>Applying gains\<close>

text \<open>\<^verbatim>\<open>max(0.2, min(1.0, x))\<close>, and \<^verbatim>\<open>x or d\<close> for a number field of the page, which
  holds a number or \<^verbatim>\<open>None\<close>: \<^verbatim>\<open>None\<close> and zero are both falsy.\<close>

definition clamp_gain :: "real \<Rightarrow> real" where
  "clamp_gain x = max (2 / 10) (min 1 x)"

definition or_default :: "real option \<Rightarrow> real \<Rightarrow> real" where
  "or_default v d = (case v of None \<Rightarrow> d | Some x \<Rightarrow> if x = 0 then d else x)"

text \<open>\<^verbatim>\<open>apply_gains_threaded\<close>: the two gains it shows (it formats them with two
  decimals), \<open>None\<close> for \<^verbatim>\<open>no_update\<close>, and the worker with the task submitted.\<close>

definition apply_gains_threaded ::
  "BackgroundWorker \<Rightarrow> real \<Rightarrow> real \<Rightarrow> nat option \<Rightarrow> real option \<Rightarrow> real option
     \<Rightarrow> (real \<times> real) option \<times> BackgroundWorker"
where
  "apply_gains_threaded w now created n_clicks shoulder_gain joint_gain =
     (if n_clicks = None \<or> n_clicks = Some 0 then (None, w)
      else
        let sg = clamp_gain (or_default shoulder_gain (6 / 10));
            jg = clamp_gain (or_default joint_gain (7 / 10))
        in (Some (sg, jg),
            snd (submit_task w now created APPLY_GAINS
                   [''shoulder_gain'' \<mapsto> PyFloat sg, ''joint_gain'' \<mapsto> PyFloat jg])))"

subsection \<open>The client module the worker imports (rasberry\_UI/GRPC/stubs/client.py)\<close>

text \<open>
  The surroundings of the client functions: whether \<^verbatim>\<open>create_grpc_channel\<close> gives a
  channel, with its status text (it catches every exception itself); what each method
  of the stub does with a request (the response's message, or an exception such as
  \<^verbatim>\<open>grpc.RpcError\<close>); and how Python's \<^verbatim>\<open>float\<close> reads a string. The message
  prefixes are Korean in the source and ASCII here. Every function has the two branches
  \<^verbatim>\<open>except grpc.RpcError\<close> and \<^verbatim>\<open>except Exception\<close>, which differ in the text
  only and both return it.
\<close>

datatype save_message = SaveCommand string | SaveAngles "real list"

record grpc_env =
  channel_created :: bool
  channel_status :: string
  GravityCompGain :: "real \<times> real \<Rightarrow> py_exception + string"
  Save :: "save_message list \<Rightarrow> py_exception + string"
  Delete :: "string \<Rightarrow> py_exception + string"
  Homing :: "string \<Rightarrow> py_exception + string"
  Teleoperation1 :: "string \<Rightarrow> py_exception + string"
  PowerOff :: "string \<Rightarrow> py_exception + string"
  float_of_str :: "string \<Rightarrow> real option"

text \<open>
  \<^verbatim>\<open>send_gravity_comp_gain\<close> on float arguments. The result is the request handed to
  the stub, if any, and the text returned.
\<close>

definition send_gravity_comp_gain ::
  "grpc_env \<Rightarrow> string \<Rightarrow> int \<Rightarrow> real \<Rightarrow> real \<Rightarrow> (real \<times> real) option \<times> string"
where
  "send_gravity_comp_gain env ip port shoulder_gain joint_gain =
     (if \<not> channel_created env then (None, ''connection failed: '' @ channel_status env)
      else
        let sg = clamp_gain shoulder_gain;
            jg = clamp_gain joint_gain
        in case GravityCompGain env (sg, jg) of
             Inr message \<Rightarrow> (Some (sg, jg), ''gain set: '' @ message)
           | Inl e \<Rightarrow> (Some (sg, jg), ''gain request failed: '' @ str_exception e))"

text \<open>\<^verbatim>\<open>float(v)\<close> on a task parameter, and a parameter used as the string field of
  a request.\<close>

definition py_float :: "grpc_env \<Rightarrow> py_value \<Rightarrow> py_exception + real" where
  "py_float env v =
     (case v of
        PyFloat x \<Rightarrow> Inr x
      | PyStr s \<Rightarrow>
          (case float_of_str env s of
             Some x \<Rightarrow> Inr x
           | None \<Rightarrow> Inl (Raised ''could not convert string to float''))
      | _ \<Rightarrow> Inl (Raised ''float() argument must be a string or a real number''))"

definition command_field :: "py_value \<Rightarrow> py_exception + string" where
  "command_field v =
     (case v of
        PyStr s \<Rightarrow> Inr s
      | _ \<Rightarrow> Inl (Raised ''bad argument type for built-in operation''))"

text \<open>\<^verbatim>\<open>send_gravity_comp_gain\<close> as the worker calls it, with the task's parameters: the
  text returned.\<close>

definition send_gravity_comp_gain_text :: "grpc_env \<Rightarrow> string \<Rightarrow> int \<Rightarrow> py_value \<Rightarrow> py_value \<Rightarrow> string" where
  "send_gravity_comp_gain_text env ip port shoulder_gain joint_gain =
     (if \<not> channel_created env then ''connection failed: '' @ channel_status env
      else
        (case py_float env shoulder_gain of
           Inl e \<Rightarrow> ''gain request failed: '' @ str_exception e
         | Inr sg \<Rightarrow>
             (case py_float env joint_gain of
                Inl e \<Rightarrow> ''gain request failed: '' @ str_exception e
              | Inr jg \<Rightarrow> snd (send_gravity_comp_gain env ip port sg jg))))"

definition send_homing_command :: "grpc_env \<Rightarrow> string \<Rightarrow> int \<Rightarrow> py_value \<Rightarrow> string" where
  "send_homing_command env ip port command =
     (if \<not> channel_created env then ''connection failed: '' @ channel_status env
      else
        (case command_field command of
           Inl e \<Rightarrow> ''Homing failed: '' @ str_exception e
         | Inr cmd \<Rightarrow>
             (case Homing env cmd of
                Inr message \<Rightarrow> ''Homing done: '' @ message
              | Inl e \<Rightarrow> ''Homing failed: '' @ str_exception e)))"

definition send_master_teleop_command :: "grpc_env \<Rightarrow> string \<Rightarrow> int \<Rightarrow> py_value \<Rightarrow> string" where
  "send_master_teleop_command env ip port command =
     (if \<not> channel_created env then ''connection failed: '' @ channel_status env
      else
        (case command_field command of
           Inl e \<Rightarrow> ''Teleoperation1 failed: '' @ str_exception e
         | Inr cmd \<Rightarrow>
             (case Teleoperation1 env cmd of
                Inr message \<Rightarrow> ''Teleoperation1 done: '' @ message
              | Inl e \<Rightarrow> ''Teleoperation1 failed: '' @ str_exception e)))"

definition send_delete_command :: "grpc_env \<Rightarrow> string \<Rightarrow> int \<Rightarrow> py_value \<Rightarrow> string" where
  "send_delete_command env ip port command =
     (if \<not> channel_created env then ''connection failed: '' @ channel_status env
      else
        (case command_field command of
           Inl e \<Rightarrow> ''Delete failed: '' @ str_exception e
         | Inr cmd \<Rightarrow>
             (case Delete env cmd of
                Inr message \<Rightarrow> ''Delete done: '' @ cmd
              | Inl e \<Rightarrow> ''Delete failed: '' @ str_exception e)))"

definition send_power_off_command :: "grpc_env \<Rightarrow> string \<Rightarrow> int \<Rightarrow> py_value \<Rightarrow> string" where
  "send_power_off_command env ip port command =
     (if \<not> channel_created env then ''connection failed: '' @ channel_status env
      else
        (case command_field command of
           Inl e \<Rightarrow> ''PowerOff failed: '' @ str_exception e
         | Inr cmd \<Rightarrow>
             (case PowerOff env cmd of
                Inr message \<Rightarrow> ''PowerOff done: '' @ message
              | Inl e \<Rightarrow> ''PowerOff failed: '' @ str_exception e)))"

text \<open>
  \<^verbatim>\<open>send_save_command\<close>. The request stream of \<^verbatim>\<open>generate_save_requests\<close>: the
  start command, the angles if there are any, the stop command. \<^verbatim>\<open>angles\<close> is tested
  for truth and length and each element goes through \<^verbatim>\<open>float\<close>, which raises for a
  value that is no sequence of numbers.
\<close>

definition save_angles :: "grpc_env \<Rightarrow> py_value \<Rightarrow> py_exception + save_message list" where
  "save_angles env angles_arg =
     (case angles_arg of
        PyNone \<Rightarrow> Inr []
      | PyList xs \<Rightarrow> Inr (if xs = [] then [] else [SaveAngles xs])
      | PyFloat x \<Rightarrow>
          if x = 0 then Inr [] else Inl (Raised ''object of type float has no len()'')
      | PyStr s \<Rightarrow>
          if s = [] then Inr []
          else
            (case those (map (\<lambda>c. float_of_str env [c]) s) of
               Some xs \<Rightarrow> Inr [SaveAngles xs]
             | None \<Rightarrow> Inl (Raised ''could not convert string to float'')))"

definition send_save_command :: "grpc_env \<Rightarrow> string \<Rightarrow> int \<Rightarrow> py_value \<Rightarrow> py_value \<Rightarrow> string" where
  "send_save_command env ip port command angles_arg =
     (if \<not> channel_created env then ''connection failed: '' @ channel_status env
      else
        (case save_angles env angles_arg of
           Inl e \<Rightarrow> ''Save failed: '' @ str_exception e
         | Inr angle_requests \<Rightarrow>
             (case Save env
                     ((if command = PyStr ''SAVE'' then [SaveCommand ''SAVE_START''] else [])
                        @ angle_requests
                        @ (if command = PyStr ''SAVE'' then [SaveCommand ''SAVE_STOP''] else []))
              of
                Inr message \<Rightarrow> ''Save done''
              | Inl e \<Rightarrow> ''Save failed: '' @ str_exception e)))"

text \<open>The module \<^verbatim>\<open>client\<close> as the worker sees it: each call returns the text of
  the function it names.\<close>

definition bound_client :: "grpc_env \<Rightarrow> client_call \<Rightarrow> py_exception + py_value" where
  "bound_client env c =
     Inr (PyStr
       (case c of
          Send_gravity_comp_gain ip port sg jg \<Rightarrow> send_gravity_comp_gain_text env ip port sg jg
        | Send_save_command ip port command angles_arg \<Rightarrow>
            send_save_command env ip port command angles_arg
        | Send_delete_command ip port command \<Rightarrow> send_delete_command env ip port command
        | Send_homing_command ip port command \<Rightarrow> send_homing_command env ip port command
        | Send_master_teleop_command ip port command \<Rightarrow>
            send_master_teleop_command env ip port command
        | Send_power_off_command ip port command \<Rightarrow>
            send_power_off_command env ip port command))"

text \<open>The modules of wifi\_ui\_1.py when its import of the client succeeded, with the
  data manager \<open>dm\<close>.\<close>

definition worker_modules :: "grpc_env \<Rightarrow> (manager_call \<Rightarrow> py_exception option) \<Rightarrow> modules" where
  "worker_modules env dm =
     \<lparr>GRPC_CLIENT_AVAILABLE = True, client = bound_client env, grpc_data_manager = dm\<rparr>"

text \<open>A worker as the module creates and starts it; a device that answers every call;
  and a device that is switched off: a channel object is still returned (the connection
  attempt times out), and every call of the stub raises \<^verbatim>\<open>grpc.RpcError\<close>.\<close>

definition started_worker :: BackgroundWorker where
  "started_worker =
     \<lparr>task_queue = [], result_queue = [], running = True,
      connection_data = (''192.168.0.43'', 50051)\<rparr>"

definition reachable_env :: grpc_env where
  "reachable_env =
     \<lparr>channel_created = True, channel_status = ''connected'',
      GravityCompGain = (\<lambda>request. Inr ''OK''),
      Save = (\<lambda>requests. Inr ''OK''),
      Delete = (\<lambda>command. Inr ''OK''),
      Homing = (\<lambda>command. Inr ''OK''),
      Teleoperation1 = (\<lambda>command. Inr ''OK''),
      PowerOff = (\<lambda>command. Inr ''OK''),
      float_of_str = (\<lambda>s. None)\<rparr>"

definition unavailable :: py_exception where
  "unavailable = Raised ''StatusCode.UNAVAILABLE - failed to connect to all addresses''"

definition unreachable_env :: grpc_env where
  "unreachable_env =
     \<lparr>channel_created = True, channel_status = ''connection timeout'',
      GravityCompGain = (\<lambda>request. Inl unavailable),
      Save = (\<lambda>requests. Inl unavailable),
      Delete = (\<lambda>command. Inl unavailable),
      Homing = (\<lambda>command. Inl unavailable),
      Teleoperation1 = (\<lambda>command. Inl unavailable),
      PowerOff = (\<lambda>command. Inl unavailable),
      float_of_str = (\<lambda>s. None)\<rparr>"

text \<open>A homing task as \<^verbatim>\<open>submit_task(TaskType.SEND_HOMING)\<close> queues it.\<close>

definition homing_task :: BackgroundTask where
  "homing_task =
     \<lparr>task_id = ''send_homing_1700000000123'', task_type = SEND_HOMING,
      params = Map.empty, task_timestamp = 1\<rparr>"

section \<open>Properties of the frame parser\<close>

lemma FRAME_SIZE_61: "FRAME_SIZE = 61"
  by (simp add: FRAME_SIZE_def ENC_DATA_SIZE_def NUM_JOINTS_def)

lemma ENC_DATA_SIZE_56: "ENC_DATA_SIZE = 56"
  by (simp add: ENC_DATA_SIZE_def NUM_JOINTS_def)

lemma find_bytes_hdr_prefix: "take 2 buf = FRAME_HDR \<Longrightarrow> find_bytes FRAME_HDR buf = Some 0"
  by (cases buf) (auto simp: FRAME_HDR_def)

lemma parse_frames_short: "length buf < FRAME_SIZE \<Longrightarrow> parse_frames buf = ([], buf)"
  by (subst parse_frames.simps) (auto split: option.splits)

lemma parse_frames_Nil: "parse_frames [] = ([], [])"
  by (simp add: parse_frames_short FRAME_SIZE_61)

text \<open>One pass of the loop on a buffer that holds a complete window.\<close>

lemma parse_frames_window:
  assumes "find_bytes FRAME_HDR buf = Some i" and "FRAME_SIZE \<le> length buf - i"
  shows "parse_frames buf =
     (case decode_window (py_slice i (i + FRAME_SIZE) buf) of
        None \<Rightarrow> parse_frames (drop (i + FRAME_SIZE) buf)
      | Some d \<Rightarrow> (d # fst (parse_frames (drop (i + FRAME_SIZE) buf)),
                    snd (parse_frames (drop (i + FRAME_SIZE) buf))))"
  using assms
  by (subst parse_frames.simps) (simp add: Let_def split: option.splits prod.splits)

lemma and_0xFFFF: "(x::int) AND 0xFFFF = x mod 65536"
proof -
  have "x AND mask 16 = x mod 2 ^ 16"
    by (metis take_bit_eq_mask take_bit_eq_mod)
  moreover have "(mask 16 :: int) = 0xFFFF"
    by (simp add: mask_eq_exp_minus_1)
  ultimately show ?thesis by simp
qed

lemma drop_last_two:
  assumes "length b = Suc (Suc n)"
  shows "drop n b = [b ! n, b ! Suc n]"
proof -
  have 1: "b ! n # drop (Suc n) b = drop n b"
    using assms by (intro Cons_nth_drop_Suc) simp
  have 2: "b ! Suc n # drop (Suc (Suc n)) b = drop (Suc n) b"
    using assms by (intro Cons_nth_drop_Suc) simp
  have 3: "drop (Suc (Suc n)) b = []"
    using assms by simp
  show ?thesis
    by (simp add: 1 [symmetric] 2 [symmetric] 3)
qed

lemma crc_rx_61: "length b = 61 \<Longrightarrow> crc_rx b = uint (b ! 59) + 256 * uint (b ! 60)"
  using drop_last_two [of b 59] by (simp add: crc_rx_def from_bytes_little_def)

lemma crc_calc_61: "crc_calc b = sum_list (map uint (py_slice 2 59 b)) mod 65536"
  by (simp add: crc_calc_def and_0xFFFF ENC_DATA_SIZE_56)

lemma unpack_u32s_length: "length (unpack_u32s xs) = length xs div 4"
  by (induction xs rule: unpack_u32s.induct) auto

lemma unpack_u32s_nth:
  "4 * k + 3 < length xs \<Longrightarrow> unpack_u32s xs ! k = le_u32_at xs (4 * k)"
proof (induction xs arbitrary: k rule: unpack_u32s.induct)
  case (1 a b c d rest)
  show ?case
  proof (cases k)
    case 0
    then show ?thesis by (simp add: le_u32_at_def from_bytes_little_def)
  next
    case (Suc m)
    with 1 have "unpack_u32s rest ! m = le_u32_at rest (4 * m)" by simp
    with Suc show ?thesis by (simp add: le_u32_at_def add.commute)
  qed
qed simp_all

lemma enc_values:
  assumes len: "length b = 61" and k: "k < 14"
  shows "unpack_u32s (py_slice 3 59 b) ! k = le_u32_at b (3 + 4 * k)"
proof -
  let ?enc = "py_slice 3 59 b"
  have l: "length ?enc = 56" using len by (simp add: py_slice_def)
  have nth: "?enc ! j = b ! (3 + j)" if "j < 56" for j
    using that len by (simp add: py_slice_def)
  have "unpack_u32s ?enc ! k = le_u32_at ?enc (4 * k)"
    using k l by (intro unpack_u32s_nth) simp
  also have "\<dots> = le_u32_at b (3 + 4 * k)"
    using k by (simp add: le_u32_at_def nth add.assoc)
  finally show ?thesis .
qed

text \<open>What the loop body decodes from a 61-byte window, field by field.\<close>

lemma decode_window_61:
  assumes len: "length b = 61"
  shows "decode_window b =
     (if checksum_law b
      then Some \<lparr>sw = b ! 2,
                 left_arm = map (\<lambda>k. le_u32_at b (3 + 4 * k)) [0..<7],
                 right_arm = map (\<lambda>k. le_u32_at b (3 + 4 * k)) [7..<14]\<rparr>
      else None)"
proof -
  let ?vs = "unpack_u32s (py_slice 3 59 b)"
  have l: "length (py_slice 3 59 b) = 56" using len by (simp add: py_slice_def)
  then have lv: "length ?vs = 14" by (simp add: unpack_u32s_length)
  have left: "take 7 ?vs = map (\<lambda>k. le_u32_at b (3 + 4 * k)) [0..<7]"
    using lv by (intro nth_equalityI) (simp_all add: enc_values [OF len] del: upt_rec_numeral)
  have right: "drop 7 ?vs = map (\<lambda>k. le_u32_at b (3 + 4 * k)) [7..<14]"
    using lv by (intro nth_equalityI) (simp_all add: enc_values [OF len] del: upt_rec_numeral)
  show ?thesis
    using l left right
    by (simp add: decode_window_def crc_rx_61 [OF len] crc_calc_61 checksum_law_def
        unpack_14I_def ENC_DATA_SIZE_56)
qed

lemma parse_frames_single:
  assumes len: "length b = 61"
    and first: "find_bytes FRAME_HDR (p @ b) = Some (length p)"
  shows "parse_frames (p @ b) =
     (case decode_window b of None \<Rightarrow> ([], []) | Some d \<Rightarrow> ([d], []))"
proof -
  have w: "py_slice (length p) (length p + FRAME_SIZE) (p @ b) = b"
    using len by (simp add: py_slice_def FRAME_SIZE_61)
  have r: "drop (length p + FRAME_SIZE) (p @ b) = []"
    using len by (simp add: FRAME_SIZE_61)
  have "FRAME_SIZE \<le> length (p @ b) - length p"
    using len by (simp add: FRAME_SIZE_61)
  from parse_frames_window [OF first this] show ?thesis
    unfolding w r parse_frames_Nil by (simp split: option.splits)
qed

text \<open>
  Claim C1, as amended. The claim says that a checksum mismatch discards only the two
  header bytes; the loop instead deletes the whole 61-byte window (and everything before
  it) before it compares the checksum. What holds: on a mismatch the parser resumes
  scanning at the byte after the 61-byte window; and on the two bytes \<open>AA BB\<close> followed by
  any 61 bytes \<open>f\<close> (a valid frame included) the only window examined is the leading
  \<open>AA BB\<close> with the first 59 bytes of \<open>f\<close>, at most that window is emitted, and the last
  two bytes of \<open>f\<close> stay in the buffer: the trailing frame is not decoded.
\<close>

theorem checksum_mismatch_skips_window:
  "(\<forall>buf i. find_bytes FRAME_HDR buf = Some i \<longrightarrow> FRAME_SIZE \<le> length buf - i \<longrightarrow>
        crc_rx (py_slice i (i + FRAME_SIZE) buf) \<noteq> crc_calc (py_slice i (i + FRAME_SIZE) buf) \<longrightarrow>
        parse_frames buf = parse_frames (drop (i + FRAME_SIZE) buf))
   \<and> (\<forall>f. length f = 61 \<longrightarrow>
        parse_frames (FRAME_HDR @ f) =
          (case decode_window (FRAME_HDR @ take 59 f) of None \<Rightarrow> [] | Some d \<Rightarrow> [d],
           drop 59 f))"
proof (intro conjI allI impI)
  fix buf i
  assume "find_bytes FRAME_HDR buf = Some i" "FRAME_SIZE \<le> length buf - i"
    and "crc_rx (py_slice i (i + FRAME_SIZE) buf) \<noteq> crc_calc (py_slice i (i + FRAME_SIZE) buf)"
  then show "parse_frames buf = parse_frames (drop (i + FRAME_SIZE) buf)"
    using parse_frames_window [of buf i] by (simp add: decode_window_def)
next
  fix f :: "byte list"
  assume len: "length f = 61"
  have first: "find_bytes FRAME_HDR (FRAME_HDR @ f) = Some 0"
    by (rule find_bytes_hdr_prefix) (simp add: FRAME_HDR_def)
  have w: "py_slice 0 (0 + FRAME_SIZE) (FRAME_HDR @ f) = FRAME_HDR @ take 59 f"
    by (simp add: py_slice_def FRAME_SIZE_61 FRAME_HDR_def)
  have r: "drop (0 + FRAME_SIZE) (FRAME_HDR @ f) = drop 59 f"
    by (simp add: FRAME_SIZE_61 FRAME_HDR_def)
  have s: "parse_frames (drop 59 f) = ([], drop 59 f)"
    using len by (intro parse_frames_short) (simp add: FRAME_SIZE_61)
  have "FRAME_SIZE \<le> length (FRAME_HDR @ f) - 0"
    using len by (simp add: FRAME_SIZE_61)
  from parse_frames_window [OF first this]
  show "parse_frames (FRAME_HDR @ f) =
          (case decode_window (FRAME_HDR @ take 59 f) of None \<Rightarrow> [] | Some d \<Rightarrow> [d],
           drop 59 f)"
    unfolding w r s by (simp split: option.splits)
qed

theorem checksum_mismatch_skips_window_witness:
  "find_bytes FRAME_HDR (FRAME_HDR @ scenario_A) = Some 0
   \<and> FRAME_SIZE \<le> length (FRAME_HDR @ scenario_A) - 0
   \<and> crc_rx (py_slice 0 (0 + FRAME_SIZE) (FRAME_HDR @ scenario_A))
        \<noteq> crc_calc (py_slice 0 (0 + FRAME_SIZE) (FRAME_HDR @ scenario_A))
   \<and> parse_frames (FRAME_HDR @ scenario_A)
        = parse_frames (drop (0 + FRAME_SIZE) (FRAME_HDR @ scenario_A))
   \<and> length scenario_A = 61
   \<and> parse_frames (FRAME_HDR @ scenario_A) = ([], [0x01, 0x00])"
proof -
  have h1: "find_bytes FRAME_HDR (FRAME_HDR @ scenario_A) = Some 0"
    by code_simp
  have h2: "FRAME_SIZE \<le> length (FRAME_HDR @ scenario_A) - 0"
    by code_simp
  have h3: "crc_rx (py_slice 0 (0 + FRAME_SIZE) (FRAME_HDR @ scenario_A))
        \<noteq> crc_calc (py_slice 0 (0 + FRAME_SIZE) (FRAME_HDR @ scenario_A))"
    by code_simp
  have h4: "length scenario_A = 61"
    by code_simp
  have d: "decode_window (FRAME_HDR @ take 59 scenario_A) = None"
    by code_simp
  have r: "drop 59 scenario_A = [0x01, 0x00]"
    by code_simp
  from checksum_mismatch_skips_window have
    a: "parse_frames (FRAME_HDR @ scenario_A)
          = parse_frames (drop (0 + FRAME_SIZE) (FRAME_HDR @ scenario_A))"
    and b: "parse_frames (FRAME_HDR @ scenario_A) =
          (case decode_window (FRAME_HDR @ take 59 scenario_A) of None \<Rightarrow> [] | Some d \<Rightarrow> [d],
           drop 59 scenario_A)"
    using h1 h2 h3 h4 by blast+
  from b have "parse_frames (FRAME_HDR @ scenario_A) = ([], [0x01, 0x00])"
    by (simp add: d r)
  with h1 h2 h3 h4 a show ?thesis by simp
qed

text \<open>
  Claim C1 as stated fails: scenario A's frame alone is decoded, but behind a stray
  \<open>AA BB\<close> nothing is emitted and only its two checksum bytes remain in the buffer.
\<close>

theorem header_only_discard_counterexample:
  "parse_frames scenario_A =
     ([\<lparr>sw = 1, left_arm = [0, 0, 0, 0, 0, 0, 0], right_arm = [0, 0, 0, 0, 0, 0, 0]\<rparr>], [])
   \<and> parse_frames (FRAME_HDR @ scenario_A) = ([], [0x01, 0x00])"
  by code_simp

text \<open>
  Claim C2. A 61-byte sequence \<open>b\<close> that starts with \<open>AA BB\<close>, with no header
  occurrence before it in the buffer (\<open>p\<close> is what precedes it), is accepted exactly
  when the sum of \<open>b[2:59]\<close> modulo 65536 equals the little-endian 16-bit integer in
  \<open>b[59:61]\<close>; the frame then carries the switch byte \<open>b[2]\<close> and the fourteen
  little-endian 32-bit integers of \<open>b[3:59]\<close>, the first seven as the left arm.
\<close>

theorem frame_accepted_iff_checksum:
  assumes len: "length b = 61"
    and hdr: "b ! 0 = 0xAA" "b ! 1 = 0xBB"
    and first: "find_bytes FRAME_HDR (p @ b) = Some (length p)"
  shows "parse_frames (p @ b) =
     (if sum_list (map uint (py_slice 2 59 b)) mod 65536 = uint (b ! 59) + 256 * uint (b ! 60)
      then [\<lparr>sw = b ! 2,
              left_arm = map (\<lambda>k. le_u32_at b (3 + 4 * k)) [0..<7],
              right_arm = map (\<lambda>k. le_u32_at b (3 + 4 * k)) [7..<14]\<rparr>]
      else [], [])"
  using parse_frames_single [OF len first]
  by (simp add: decode_window_61 [OF len] checksum_law_def)

theorem frame_accepted_iff_checksum_witness:
  "length scenario_A = 61 \<and> scenario_A ! 0 = 0xAA \<and> scenario_A ! 1 = 0xBB
   \<and> find_bytes FRAME_HDR ([0x0A] @ scenario_A) = Some (length [0x0A :: byte])
   \<and> parse_frames ([0x0A] @ scenario_A) =
       ([\<lparr>sw = 1, left_arm = [0, 0, 0, 0, 0, 0, 0], right_arm = [0, 0, 0, 0, 0, 0, 0]\<rparr>], [])"
proof -
  have h1: "length scenario_A = 61"
    by code_simp
  have h2: "scenario_A ! 0 = 0xAA"
    by code_simp
  have h3: "scenario_A ! 1 = 0xBB"
    by code_simp
  have h4: "find_bytes FRAME_HDR ([0x0A] @ scenario_A) = Some (length [0x0A :: byte])"
    by code_simp
  have rhs: "(if sum_list (map uint (py_slice 2 59 scenario_A)) mod 65536
                 = uint (scenario_A ! 59) + 256 * uint (scenario_A ! 60)
      then [\<lparr>sw = scenario_A ! 2,
              left_arm = map (\<lambda>k. le_u32_at scenario_A (3 + 4 * k)) [0..<7],
              right_arm = map (\<lambda>k. le_u32_at scenario_A (3 + 4 * k)) [7..<14]\<rparr>]
      else [], [] :: byte list)
    = ([\<lparr>sw = 1, left_arm = [0, 0, 0, 0, 0, 0, 0], right_arm = [0, 0, 0, 0, 0, 0, 0]\<rparr>], [])"
    by code_simp
  from frame_accepted_iff_checksum [OF h1 h2 h3 h4] rhs
  have "parse_frames ([0x0A] @ scenario_A) =
       ([\<lparr>sw = 1, left_arm = [0, 0, 0, 0, 0, 0, 0], right_arm = [0, 0, 0, 0, 0, 0, 0]\<rparr>], [])"
    by (rule trans)
  with h1 h2 h3 h4 show ?thesis by blast
qed

text \<open>
  Claim C3. A complete corrupted frame (header \<open>AA BB\<close>, checksum mismatch) followed at
  once by a complete valid frame: the parser emits the valid frame, and nothing else,
  and consumes both.
\<close>

theorem resync_after_corrupted_frame:
  assumes c: "length c = 61" "take 2 c = FRAME_HDR" "crc_rx c \<noteq> crc_calc c"
    and f: "length f = 61" "take 2 f = FRAME_HDR" "crc_rx f = crc_calc f"
  shows "parse_frames (c @ f) =
     ([\<lparr>sw = f ! 2,
         left_arm = map (\<lambda>k. le_u32_at f (3 + 4 * k)) [0..<7],
         right_arm = map (\<lambda>k. le_u32_at f (3 + 4 * k)) [7..<14]\<rparr>], [])"
proof -
  have "take 2 (c @ f) = FRAME_HDR" using c by simp
  then have first: "find_bytes FRAME_HDR (c @ f) = Some 0"
    by (rule find_bytes_hdr_prefix)
  have w: "py_slice 0 (0 + FRAME_SIZE) (c @ f) = c"
    using c by (simp add: py_slice_def FRAME_SIZE_61)
  have r: "drop (0 + FRAME_SIZE) (c @ f) = f"
    using c by (simp add: FRAME_SIZE_61)
  have "FRAME_SIZE \<le> length (c @ f) - 0"
    using c by (simp add: FRAME_SIZE_61)
  from parse_frames_window [OF first this]
  have skip: "parse_frames (c @ f) = parse_frames f"
    unfolding w r using c by (simp add: decode_window_def)
  have "find_bytes FRAME_HDR ([] @ f) = Some (length ([] :: byte list))"
    using f by (simp add: find_bytes_hdr_prefix)
  from parse_frames_single [OF f(1) this]
  have "parse_frames f =
     (case decode_window f of None \<Rightarrow> ([], []) | Some d \<Rightarrow> ([d], []))"
    by simp
  moreover have "checksum_law f"
    using f by (simp add: checksum_law_def crc_rx_61 crc_calc_61)
  ultimately show ?thesis
    using skip by (simp add: decode_window_61 [OF f(1)])
qed

theorem resync_after_corrupted_frame_witness:
  "length corrupted_A = 61 \<and> take 2 corrupted_A = FRAME_HDR
   \<and> crc_rx corrupted_A \<noteq> crc_calc corrupted_A
   \<and> length scenario_A = 61 \<and> take 2 scenario_A = FRAME_HDR
   \<and> crc_rx scenario_A = crc_calc scenario_A
   \<and> parse_frames (corrupted_A @ scenario_A) =
       ([\<lparr>sw = 1, left_arm = [0, 0, 0, 0, 0, 0, 0], right_arm = [0, 0, 0, 0, 0, 0, 0]\<rparr>], [])"
proof -
  have c1: "length corrupted_A = 61"
    by code_simp
  have c2: "take 2 corrupted_A = FRAME_HDR"
    by code_simp
  have c3: "crc_rx corrupted_A \<noteq> crc_calc corrupted_A"
    by code_simp
  have f1: "length scenario_A = 61"
    by code_simp
  have f2: "take 2 scenario_A = FRAME_HDR"
    by code_simp
  have f3: "crc_rx scenario_A = crc_calc scenario_A"
    by code_simp
  have rhs: "([\<lparr>sw = scenario_A ! 2,
         left_arm = map (\<lambda>k. le_u32_at scenario_A (3 + 4 * k)) [0..<7],
         right_arm = map (\<lambda>k. le_u32_at scenario_A (3 + 4 * k)) [7..<14]\<rparr>], [] :: byte list)
    = ([\<lparr>sw = 1, left_arm = [0, 0, 0, 0, 0, 0, 0], right_arm = [0, 0, 0, 0, 0, 0, 0]\<rparr>], [])"
    by code_simp
  from resync_after_corrupted_frame [OF c1 c2 c3 f1 f2 f3] rhs
  have "parse_frames (corrupted_A @ scenario_A) =
       ([\<lparr>sw = 1, left_arm = [0, 0, 0, 0, 0, 0, 0], right_arm = [0, 0, 0, 0, 0, 0, 0]\<rparr>], [])"
    by (rule trans)
  with c1 c2 c3 f1 f2 f3 show ?thesis by blast
qed

section \<open>Properties of the reader state and the recording buffer\<close>

lemma store_frame_fields:
  "latest_enc_L (store_frame ts d s) = left_arm d"
  "latest_enc_R (store_frame ts d s) = right_arm d"
  "stats (store_frame ts d s) = update_stats ts (stats s)"
  "recording_active (store_frame ts d s) = recording_active s"
  "recorded_encoders (store_frame ts d s) =
     (if recording_active s then recorded_encoders s @ [sample_of ts d] else recorded_encoders s)"
  by (simp_all add: store_frame_def sample_of_def)

lemma last_ts_update_stats: "last_ts (update_stats ts st) = ts"
  by (simp add: update_stats_def Let_def)

lemma save_btn_fields:
  "recorded_encoders (fst (handle_all_buttons strftime save_btn port_data current_text s))
     = recorded_encoders s"
  "latest_enc_L (fst (handle_all_buttons strftime save_btn port_data current_text s))
     = latest_enc_L s"
  "latest_enc_R (fst (handle_all_buttons strftime save_btn port_data current_text s))
     = latest_enc_R s"
  "stats (fst (handle_all_buttons strftime save_btn port_data current_text s)) = stats s"
  "recording_active (fst (handle_all_buttons strftime save_btn port_data current_text s)) =
     (if truthy_str port_data then current_text = Some ''Recording'' else recording_active s)"
  by (simp_all add: handle_all_buttons_def)

text \<open>
  Claim C4. A decoded frame always replaces the latest angles of both arms and updates
  the statistics (the last frame time becomes the frame's time); it is appended to
  \<open>recorded_encoders\<close> exactly when \<open>recording_active\<close> holds at that moment, after any
  history \<open>evs\<close>. Switching the flag with the record button leaves the buffer as it is.
  With the button pressed before \<open>F1\<close>, between \<open>F1\<close> and \<open>F2\<close>, and between \<open>F2\<close> and
  \<open>F3\<close>, the buffer gains exactly \<open>F1\<close> and \<open>F3\<close>.
\<close>

theorem recording_gated_at_decode:
  "latest_enc_L (store_frame ts d s) = left_arm d
   \<and> latest_enc_R (store_frame ts d s) = right_arm d
   \<and> stats (store_frame ts d s) = update_stats ts (stats s)
   \<and> last_ts (stats (store_frame ts d s)) = ts
   \<and> recording_active (store_frame ts d s) = recording_active s
   \<and> recorded_encoders (reader_run strftime s (evs @ [Decoded ts d])) =
       (if recording_active (reader_run strftime s evs)
        then recorded_encoders (reader_run strftime s evs) @ [sample_of ts d]
        else recorded_encoders (reader_run strftime s evs))
   \<and> recorded_encoders (reader_run strftime s (evs @ [Button save_btn port_data current_text]))
       = recorded_encoders (reader_run strftime s evs)
   \<and> (truthy_str port \<longrightarrow>
       recorded_encoders
         (reader_run strftime s
            [Button save_btn port (Some ''Recording''), Decoded t1 F1,
             Button save_btn port (Some ''Stop''), Decoded t2 F2,
             Button save_btn port (Some ''Recording''), Decoded t3 F3])
       = recorded_encoders s @ [sample_of t1 F1, sample_of t3 F3])"
  by (simp add: store_frame_fields last_ts_update_stats save_btn_fields reader_run_def)

theorem recording_gated_at_decode_witness:
  "truthy_str (Some ''COM3'')
   \<and> recorded_encoders
         (reader_run (\<lambda>t. ''2025-01-01 00:00:00.000'') initial_reader_state
            [Button save_btn (Some ''COM3'') (Some ''Recording''), Decoded 1 frame_F1,
             Button save_btn (Some ''COM3'') (Some ''Stop''), Decoded 2 frame_F2,
             Button save_btn (Some ''COM3'') (Some ''Recording''), Decoded 3 frame_F3])
       = [sample_of 1 frame_F1, sample_of 3 frame_F3]"
proof -
  have h: "truthy_str (Some ''COM3'')"
    by (simp add: truthy_str_def)
  have e: "recorded_encoders initial_reader_state = []"
    by (simp add: initial_reader_state_def)
  from recording_gated_at_decode
    [where s = initial_reader_state and port = "Some ''COM3''" and ?t1.0 = 1 and ?t2.0 = 2
       and ?t3.0 = 3 and ?F1.0 = frame_F1 and ?F2.0 = frame_F2 and ?F3.0 = frame_F3
       and strftime = "\<lambda>t. ''2025-01-01 00:00:00.000''"]
  show ?thesis
    using h by (simp only: e append_Nil simp_thms)
qed

lemma fieldnames_eq:
  "fieldnames =
     [''timestamp'', ''datetime'',
      ''right_joint_1'', ''right_joint_2'', ''right_joint_3'', ''right_joint_4'',
      ''right_joint_5'', ''right_joint_6'', ''right_joint_7'',
      ''left_joint_1'', ''left_joint_2'', ''left_joint_3'', ''left_joint_4'',
      ''left_joint_5'', ''left_joint_6'', ''left_joint_7'']"
  by code_simp

lemma str_int_small:
  "str_int 1 = ''1''" "str_int 2 = ''2''" "str_int 3 = ''3''" "str_int 4 = ''4''"
  "str_int 5 = ''5''" "str_int 6 = ''6''" "str_int 7 = ''7''"
  by code_simp+

lemma length_7: "length xs = 7 \<Longrightarrow> \<exists>a b c d e f g. xs = [a, b, c, d, e, f, g]"
  by (simp add: eval_nat_numeral length_Suc_conv) blast

lemma upt_7: "[0..<NUM_JOINTS] = [0, 1, 2, 3, 4, 5, 6]"
  by code_simp

lemma writerow_entry:
  assumes "length (sample_right_arm e) = 7" and "length (sample_left_arm e) = 7"
  shows "\<exists>row. entry_row strftime e = Inr row \<and> writerow fieldnames row = csv_row strftime e"
proof -
  from assms(1) obtain r1 r2 r3 r4 r5 r6 r7
    where r: "sample_right_arm e = [r1, r2, r3, r4, r5, r6, r7]"
    using length_7 by blast
  from assms(2) obtain l1 l2 l3 l4 l5 l6 l7
    where l: "sample_left_arm e = [l1, l2, l3, l4, l5, l6, l7]"
    using length_7 by blast
  show ?thesis
    by (simp add: entry_row_def r l upt_7 py_index_def str_int_small writerow_def fieldnames_eq
        csv_row_def)
qed

lemma write_entries_ok:
  assumes "\<forall>e \<in> set entries. length (sample_right_arm e) = 7 \<and> length (sample_left_arm e) = 7"
  shows "write_entries strftime entries acc = (None, acc @ map (csv_row strftime) entries)"
  using assms
proof (induction entries arbitrary: acc)
  case Nil
  then show ?case by simp
next
  case (Cons e entries)
  then obtain row
    where "entry_row strftime e = Inr row" "writerow fieldnames row = csv_row strftime e"
    using writerow_entry [of e strftime] by auto
  with Cons show ?case by simp
qed

text \<open>Every frame the parser decodes has seven values for each arm, so every sample the
  reader records has.\<close>

lemma decode_window_seven:
  assumes "decode_window frame = Some d"
  shows "length (left_arm d) = 7 \<and> length (right_arm d) = 7"
  using assms
  by (auto simp: decode_window_def unpack_14I_def unpack_u32s_length
      split: if_splits option.splits)

text \<open>
  Claim C9. For a non-empty buffer of \<open>N\<close> samples (each with the seven values per arm
  that the reader records), the Save-As branch writes the header row and then one row
  per sample, in buffer order: timestamp, datetime, the seven right-arm values, the
  seven left-arm values. The state it returns is the state it was given: the buffer is
  not cleared.
\<close>

theorem csv_export_rows:
  assumes nonempty: "recorded_encoders s \<noteq> []"
    and seven: "\<forall>e \<in> set (recorded_encoders s).
                  length (sample_right_arm e) = 7 \<and> length (sample_left_arm e) = 7"
  shows "handle_all_buttons strftime save_as_btn port_data current_text s =
           (s, SaveDone (length (recorded_encoders s)),
            Some (csv_header # map (csv_row strftime) (recorded_encoders s)))"
  using nonempty write_entries_ok [OF seven]
  by (simp add: handle_all_buttons_def csv_header_def fieldnames_eq)

theorem csv_export_rows_witness:
  "recorded_encoders
     (initial_reader_state\<lparr>recorded_encoders := [sample_of 1 frame_F1, sample_of 3 frame_F3]\<rparr>)
     \<noteq> []
   \<and> length (sample_right_arm (sample_of 1 frame_F1)) = 7
   \<and> length (sample_left_arm (sample_of 1 frame_F1)) = 7
   \<and> length (sample_right_arm (sample_of 3 frame_F3)) = 7
   \<and> length (sample_left_arm (sample_of 3 frame_F3)) = 7
   \<and> snd (snd (handle_all_buttons (\<lambda>t. ''2025-01-01 00:00:00.000'') save_as_btn None None
        (initial_reader_state\<lparr>recorded_encoders := [sample_of 1 frame_F1, sample_of 3 frame_F3]\<rparr>)))
     = Some
        [csv_header,
         [CellFloat 1, CellStr ''2025-01-01 00:00:00.000'',
          CellInt 8, CellInt 9, CellInt 10, CellInt 11, CellInt 12, CellInt 13, CellInt 14,
          CellInt 1, CellInt 2, CellInt 3, CellInt 4, CellInt 5, CellInt 6, CellInt 7],
         [CellFloat 3, CellStr ''2025-01-01 00:00:00.000'',
          CellInt 48, CellInt 49, CellInt 50, CellInt 51, CellInt 52, CellInt 53, CellInt 54,
          CellInt 41, CellInt 42, CellInt 43, CellInt 44, CellInt 45, CellInt 46, CellInt 47]]"
proof -
  let ?s = "initial_reader_state\<lparr>recorded_encoders := [sample_of 1 frame_F1, sample_of 3 frame_F3]\<rparr>"
  have h1: "recorded_encoders ?s \<noteq> []"
    by simp
  have h2: "\<forall>e \<in> set (recorded_encoders ?s).
              length (sample_right_arm e) = 7 \<and> length (sample_left_arm e) = 7"
    by (simp add: sample_of_def frame_F1_def frame_F3_def)
  from csv_export_rows [OF h1 h2, of "\<lambda>t. ''2025-01-01 00:00:00.000''" None None]
  have "snd (snd (handle_all_buttons (\<lambda>t. ''2025-01-01 00:00:00.000'') save_as_btn None None ?s))
          = Some (csv_header # map (csv_row (\<lambda>t. ''2025-01-01 00:00:00.000''))
                    (recorded_encoders ?s))"
    by simp
  then show ?thesis
    using h1 h2 by (simp add: csv_row_def sample_of_def frame_F1_def frame_F3_def)
qed

section \<open>Properties of the stream handler\<close>

text \<open>
  Claim C5, as amended. The claim speaks of every call of \<open>add_sample\<close> on a full queue;
  the function first returns \<open>False\<close> when the handler is not running, and then nothing
  is counted. What holds: on a running handler with a full queue the call returns
  \<open>False\<close>, the queue and every other statistic are as before, and \<open>dropped_samples\<close> is
  one more; on a handler that is not running the call returns \<open>False\<close> and changes
  nothing.
\<close>

theorem full_queue_drops_newest:
  "(is_running h \<longrightarrow> queue_full h \<longrightarrow>
      add_sample h now a sq sid cap sent =
        (False, h\<lparr>handler_stats := (handler_stats h)
                    \<lparr>dropped_samples := dropped_samples (handler_stats h) + 1\<rparr>\<rparr>))
   \<and> (\<not> is_running h \<longrightarrow> add_sample h now a sq sid cap sent = (False, h))"
  by (simp add: add_sample_def)

theorem full_queue_drops_newest_witness:
  "is_running running_full_handler \<and> queue_full running_full_handler
   \<and> length (data_queue running_full_handler) = 1000
   \<and> fst (add_sample running_full_handler 2 [1, 2] 2 ''s'' 0 0) = False
   \<and> data_queue (snd (add_sample running_full_handler 2 [1, 2] 2 ''s'' 0 0))
        = data_queue running_full_handler
   \<and> dropped_samples (handler_stats (snd (add_sample running_full_handler 2 [1, 2] 2 ''s'' 0 0))) = 1
   \<and> \<not> is_running stopped_full_handler
   \<and> add_sample stopped_full_handler 2 [1, 2] 2 ''s'' 0 0 = (False, stopped_full_handler)"
proof -
  have h1: "is_running running_full_handler"
    by (simp add: running_full_handler_def)
  have h2: "queue_full running_full_handler"
    by (simp add: running_full_handler_def stopped_full_handler_def queue_full_def)
  have h3: "\<not> is_running stopped_full_handler"
    by (simp add: stopped_full_handler_def)
  have l: "length (data_queue running_full_handler) = 1000"
    by (simp add: running_full_handler_def stopped_full_handler_def)
  have d: "dropped_samples (handler_stats running_full_handler) = 0"
    by (simp add: running_full_handler_def stopped_full_handler_def)
  from full_queue_drops_newest [of running_full_handler 2 "[1, 2]" 2 "''s''" 0 0] h1 h2
  have a: "add_sample running_full_handler 2 [1, 2] 2 ''s'' 0 0 =
        (False, running_full_handler\<lparr>handler_stats := (handler_stats running_full_handler)
                    \<lparr>dropped_samples := dropped_samples (handler_stats running_full_handler) + 1\<rparr>\<rparr>)"
    by blast
  from full_queue_drops_newest [of stopped_full_handler 2 "[1, 2]" 2 "''s''" 0 0] h3
  have b: "add_sample stopped_full_handler 2 [1, 2] 2 ''s'' 0 0 = (False, stopped_full_handler)"
    by blast
  show ?thesis
    using h1 h2 h3 l by (simp add: a b d)
qed

text \<open>
  Claim C5 as stated fails on a handler that was stopped with its queue full: the
  queue holds 1000 samples, the call returns \<open>False\<close>, and \<open>dropped_samples\<close> is
  unchanged.
\<close>

theorem stopped_handler_counterexample:
  "length (data_queue stopped_full_handler) = 1000
   \<and> queue_full stopped_full_handler
   \<and> fst (add_sample stopped_full_handler 2 [1, 2] 2 ''s'' 0 0) = False
   \<and> dropped_samples (handler_stats (snd (add_sample stopped_full_handler 2 [1, 2] 2 ''s'' 0 0)))
       = dropped_samples (handler_stats stopped_full_handler)"
  by (simp add: stopped_full_handler_def queue_full_def add_sample_def)

lemma deliver_in_order_append:
  "deliver_in_order cbs (xs @ ys) w = deliver_in_order cbs ys (deliver_in_order cbs xs w)"
  by (simp add: deliver_in_order_def)

lemma deliver_in_order_Cons:
  "deliver_in_order cbs (x # xs) w = deliver_in_order cbs xs (run_callbacks cbs x w)"
  by (simp add: deliver_in_order_def)

lemma deliver_in_order_Nil: "deliver_in_order cbs [] w = w"
  by (simp add: deliver_in_order_def)

lemma queued_samples_simps:
  "queued_samples (h\<lparr>data_queue := q @ [Some x]\<rparr>) = queued_samples (h\<lparr>data_queue := q\<rparr>) @ [x]"
  by (simp add: queued_samples_def map_filter_def)

lemma stream_step_invariant:
  assumes act: "worker_active (h, l, w)"
    and cap: "below_capacity (h, l, w) [ev]"
    and step: "stream_step (h, l, w) ev = (h', l', w')"
  shows "worker_active (h', l', w') \<and> callbacks h' = callbacks h
     \<and> max_queue_size h' = max_queue_size h
     \<and> deliver_in_order (callbacks h) (queued_samples h') w'
         = deliver_in_order (callbacks h) (queued_samples h @ submitted [ev]) w"
proof (cases ev)
  case (Submit now a sq sid c s)
  with cap have nf: "\<not> queue_full h" by simp
  from act have run: "is_running h" by (simp add: worker_active_def)
  from step Submit run nf
  have h': "h' = h\<lparr>data_queue := data_queue h @ [Some (make_sample now a sq sid c s)],
                   handler_stats := (handler_stats h)
                      \<lparr>total_samples := total_samples (handler_stats h) + 1\<rparr>\<rparr>"
    and l': "l' = l" and w': "w' = w"
    by (simp_all add: add_sample_def Let_def)
  show ?thesis
    using act by (simp add: h' l' w' Submit worker_active_def queued_samples_def map_filter_def)
next
  case (Work t)
  from act have run: "is_running h" and loop: "in_loop l" and nn: "None \<notin> set (data_queue h)"
    by (simp_all add: worker_active_def)
  show ?thesis
  proof (cases "data_queue h")
    case Nil
    with step Work run loop have "h' = h" "l' = l" "w' = w"
      by (simp_all add: worker_pass_def)
    with act Work show ?thesis by simp
  next
    case (Cons x q)
    with nn obtain sample where x: "x = Some sample" by (cases x) auto
    from step Work run loop Cons x
    have w': "w' = run_callbacks (callbacks h) sample w"
      and q': "data_queue h' = q" and c': "callbacks h' = callbacks h"
      and m': "max_queue_size h' = max_queue_size h"
      and r': "is_running h'" and i': "in_loop l'"
      by (auto simp: worker_pass_def Let_def process_sample_def split: if_splits)
    from nn Cons q' have "None \<notin> set (data_queue h')" by simp
    moreover have "queued_samples h = sample # queued_samples h'"
      by (simp add: queued_samples_def map_filter_def Cons x q')
    ultimately show ?thesis
      using r' i' c' m' Work
      by (simp add: worker_active_def w' deliver_in_order_Cons)
  qed
qed

lemma below_capacity_Cons:
  "below_capacity st (ev # evs) \<longleftrightarrow> below_capacity st [ev] \<and> below_capacity (stream_step st ev) evs"
  by (cases ev) simp_all

lemma submitted_Cons: "submitted (ev # evs) = submitted [ev] @ submitted evs"
  by (cases ev) simp_all

lemma stream_run_invariant:
  assumes "worker_active (h, l, w)"
    and "below_capacity (h, l, w) evs"
    and "stream_run (h, l, w) evs = (h', l', w')"
  shows "worker_active (h', l', w') \<and> callbacks h' = callbacks h
     \<and> max_queue_size h' = max_queue_size h
     \<and> deliver_in_order (callbacks h) (queued_samples h') w'
         = deliver_in_order (callbacks h) (queued_samples h @ submitted evs) w"
  using assms
proof (induction evs arbitrary: h l w)
  case Nil
  then show ?case by (simp add: stream_run_def)
next
  case (Cons ev evs)
  obtain h1 l1 w1 where s1: "stream_step (h, l, w) ev = (h1, l1, w1)"
    by (cases "stream_step (h, l, w) ev") auto
  from Cons.prems(2) have c1: "below_capacity (h, l, w) [ev]"
    and c2: "below_capacity (h1, l1, w1) evs"
    by (simp_all add: below_capacity_Cons [of _ ev evs] s1)
  from stream_step_invariant [OF Cons.prems(1) c1 s1]
  have a1: "worker_active (h1, l1, w1)" and cb: "callbacks h1 = callbacks h"
    and mq: "max_queue_size h1 = max_queue_size h"
    and d1: "deliver_in_order (callbacks h) (queued_samples h1) w1
         = deliver_in_order (callbacks h) (queued_samples h @ submitted [ev]) w"
    by simp_all
  from Cons.prems(3) have r: "stream_run (h1, l1, w1) evs = (h', l', w')"
    by (simp add: stream_run_def s1)
  from Cons.IH [OF a1 c2 r]
  have "worker_active (h', l', w')" "callbacks h' = callbacks h1"
    "max_queue_size h' = max_queue_size h1"
    and d2: "deliver_in_order (callbacks h1) (queued_samples h') w'
         = deliver_in_order (callbacks h1) (queued_samples h1 @ submitted evs) w1"
    by simp_all
  moreover have "deliver_in_order (callbacks h) (queued_samples h') w'
         = deliver_in_order (callbacks h) (queued_samples h @ submitted (ev # evs)) w"
    using d1 d2 cb
    by (simp add: deliver_in_order_append submitted_Cons [of ev evs])
  ultimately show ?case using cb mq by simp
qed


lemma work_pass_length:
  assumes act: "worker_active (h, l, w)"
    and step: "stream_step (h, l, w) (Work t) = (h', l', w')"
  shows "worker_active (h', l', w') \<and> length (data_queue h') = length (data_queue h) - 1"
proof -
  from act have run: "is_running h" and loop: "in_loop l" and nn: "None \<notin> set (data_queue h)"
    by (simp_all add: worker_active_def)
  show ?thesis
  proof (cases "data_queue h")
    case Nil
    with step run loop have "h' = h" "l' = l" "w' = w"
      by (simp_all add: worker_pass_def)
    with act Nil show ?thesis by simp
  next
    case (Cons x q)
    with nn obtain sample where x: "x = Some sample" by (cases x) auto
    from step run loop Cons x
    have "data_queue h' = q" "is_running h'" "in_loop l'"
      by (auto simp: worker_pass_def Let_def split: if_splits)
    with nn Cons show ?thesis by (simp add: worker_active_def)
  qed
qed

lemma worker_drains:
  assumes "worker_active (h, l, w)"
    and "length (data_queue h) \<le> length ts"
    and "stream_run (h, l, w) (map Work ts) = (h', l', w')"
  shows "data_queue h' = []"
  using assms
proof (induction ts arbitrary: h l w)
  case Nil
  then show ?case by (simp add: stream_run_def)
next
  case (Cons t ts)
  obtain h1 l1 w1 where s1: "stream_step (h, l, w) (Work t) = (h1, l1, w1)"
    by (cases "stream_step (h, l, w) (Work t)") auto
  from work_pass_length [OF Cons.prems(1) s1]
  have a1: "worker_active (h1, l1, w1)"
    and len: "length (data_queue h1) = length (data_queue h) - 1"
    by simp_all
  from len Cons.prems(2) have l1: "length (data_queue h1) \<le> length ts" by simp
  from Cons.prems(3) s1 have "stream_run (h1, l1, w1) (map Work ts) = (h', l', w')"
    by (simp add: stream_run_def)
  from Cons.IH [OF a1 l1 this] show ?case .
qed

lemma below_capacity_append:
  "below_capacity st (evs @ evs') \<longleftrightarrow>
     below_capacity st evs \<and> below_capacity (stream_run st evs) evs'"
proof (induction evs arbitrary: st)
  case Nil
  then show ?case by (simp add: stream_run_def)
next
  case (Cons ev evs)
  show ?case
    using Cons [of "stream_step st ev"]
    by (cases ev) (simp_all add: stream_run_def)
qed

lemma below_capacity_Work: "below_capacity st (map Work ts)"
  by (induction ts arbitrary: st) simp_all

lemma submitted_append: "submitted (evs @ evs') = submitted evs @ submitted evs'"
  by (induction evs rule: submitted.induct) simp_all

lemma submitted_Work: "submitted (map Work ts) = []"
  by (induction ts) simp_all

lemma queue_length_bound:
  "length (data_queue (fst (stream_run (h, l, w) evs)))
     \<le> length (data_queue h) + length (submitted evs)"
proof (induction evs arbitrary: h l w)
  case Nil
  then show ?case by (simp add: stream_run_def)
next
  case (Cons ev evs)
  obtain h1 l1 w1 where s1: "stream_step (h, l, w) ev = (h1, l1, w1)"
    by (cases "stream_step (h, l, w) ev") auto
  have "length (data_queue h1) \<le> length (data_queue h) + length (submitted [ev])"
    using s1
    by (cases ev)
      (auto simp: add_sample_def worker_pass_def Let_def split: if_splits list.splits option.splits)
  moreover have "stream_run (h, l, w) (ev # evs) = stream_run (h1, l1, w1) evs"
    by (simp add: stream_run_def s1)
  ultimately show ?case
    using Cons [of h1 l1 w1] by (simp add: submitted_Cons [of ev evs])
qed

lemma run_callbacks_append:
  "run_callbacks (xs @ ys) sample w = run_callbacks ys sample (run_callbacks xs sample w)"
  by (induction xs arbitrary: w) (auto split: prod.splits)

lemma observed_by_append [simp]: "observed_by k (u @ v) = observed_by k u @ observed_by k v"
  by (simp add: observed_by_def)

lemma run_observers:
  "observed_by k (run_callbacks (map (\<lambda>j. observer j (raises j)) [0..<n]) sample w)
     = observed_by k w @ (if k < n then [sample] else [])"
proof (induction n)
  case 0
  then show ?case by simp
next
  case (Suc n)
  then show ?case
    by (auto simp: run_callbacks_append observer_def observed_by_def)
qed

lemma deliver_observers:
  "k < n \<Longrightarrow>
   observed_by k (deliver_in_order (map (\<lambda>j. observer j (raises j)) [0..<n]) samples w)
     = observed_by k w @ samples"
  by (induction samples arbitrary: w) (simp_all add: deliver_in_order_def run_observers)

text \<open>
  Claim C6. A started handler (running, worker thread in its loop, queue empty) takes
  any interleaving \<open>evs\<close> of \<open>add_sample\<close> calls and worker passes in which no call meets
  a full queue, and then as many further worker passes as samples were submitted. The
  subscribers' state is then what in-order delivery gives: every submitted sample, in
  submission order, each to every callback in registration order, whether or not a
  callback raised. For subscribers that write down what they are called with, some or
  all of which raise, each one has written down exactly the submitted samples in
  submission order.
\<close>

theorem callbacks_observe_submission_order:
  assumes run: "is_running h" and loop: "in_loop l" and empty: "data_queue h = []"
    and cap: "below_capacity (h, l, w) evs"
    and passes: "length (submitted evs) \<le> length ts"
  shows "snd (snd (stream_run (h, l, w) (evs @ map Work ts)))
           = deliver_in_order (callbacks h) (submitted evs) w
     \<and> (\<forall>n raises k. callbacks h = map (\<lambda>j. observer j (raises j)) [0..<n] \<longrightarrow> k < n \<longrightarrow>
           observed_by k (snd (snd (stream_run (h, l, w) (evs @ map Work ts))))
             = observed_by k w @ submitted evs)"
proof -
  have act: "worker_active (h, l, w)"
    using run loop empty by (simp add: worker_active_def)
  obtain h1 l1 w1 where r1: "stream_run (h, l, w) evs = (h1, l1, w1)"
    by (cases "stream_run (h, l, w) evs") auto
  obtain h2 l2 w2 where r2: "stream_run (h, l, w) (evs @ map Work ts) = (h2, l2, w2)"
    by (cases "stream_run (h, l, w) (evs @ map Work ts)") auto
  from stream_run_invariant [OF act cap r1] have a1: "worker_active (h1, l1, w1)"
    by simp
  have "length (data_queue h1) \<le> length (submitted evs)"
    using queue_length_bound [of h l w evs] by (simp add: r1 empty)
  with passes have l1: "length (data_queue h1) \<le> length ts" by simp
  have "stream_run (h1, l1, w1) (map Work ts) = (h2, l2, w2)"
    using r1 r2 by (simp add: stream_run_def)
  from worker_drains [OF a1 l1 this] have e2: "data_queue h2 = []" .
  have "below_capacity (h, l, w) (evs @ map Work ts)"
    using cap by (simp add: below_capacity_append below_capacity_Work)
  from stream_run_invariant [OF act this r2]
  have "deliver_in_order (callbacks h) (queued_samples h2) w2
         = deliver_in_order (callbacks h) (queued_samples h @ submitted (evs @ map Work ts)) w"
    by simp
  then have main: "w2 = deliver_in_order (callbacks h) (submitted evs) w"
    by (simp add: queued_samples_def map_filter_def e2 empty deliver_in_order_Nil
        submitted_append submitted_Work)
  show ?thesis
    by (simp add: r2 main deliver_observers)
qed

theorem callbacks_observe_submission_order_witness:
  "is_running observing_handler \<and> in_loop fresh_locals \<and> data_queue observing_handler = []
   \<and> below_capacity (observing_handler, fresh_locals, []) example_run
   \<and> length (submitted example_run) \<le> length [4, 5, 6 :: real]
   \<and> snd (snd (stream_run (observing_handler, fresh_locals, []) (example_run @ map Work [4, 5, 6])))
       = [(0, make_sample 1 [1] 1 ''s'' 7 7), (1, make_sample 1 [1] 1 ''s'' 7 7),
          (0, make_sample 2 [2] 2 ''s'' 7 7), (1, make_sample 2 [2] 2 ''s'' 7 7),
          (0, make_sample 3 [3] 3 ''s'' 7 7), (1, make_sample 3 [3] 3 ''s'' 7 7)]
   \<and> observed_by 0 (snd (snd (stream_run (observing_handler, fresh_locals, [])
                                 (example_run @ map Work [4, 5, 6]))))
       = [make_sample 1 [1] 1 ''s'' 7 7, make_sample 2 [2] 2 ''s'' 7 7,
          make_sample 3 [3] 3 ''s'' 7 7]"
proof -
  have h1: "is_running observing_handler"
    by (simp add: observing_handler_def)
  have h2: "in_loop fresh_locals"
    by (simp add: fresh_locals_def)
  have h3: "data_queue observing_handler = []"
    by (simp add: observing_handler_def)
  have h4: "below_capacity (observing_handler, fresh_locals, []) example_run"
    by (simp add: example_run_def observing_handler_def fresh_locals_def queue_full_def
        add_sample_def worker_pass_def process_sample_def Let_def)
  have s: "submitted example_run =
     [make_sample 1 [1] 1 ''s'' 7 7, make_sample 2 [2] 2 ''s'' 7 7,
      make_sample 3 [3] 3 ''s'' 7 7]"
    by (simp add: example_run_def)
  have h5: "length (submitted example_run) \<le> length [4, 5, 6 :: real]"
    by (simp add: s)
  have c: "callbacks observing_handler = map (\<lambda>j. observer j (\<lambda>sample. j = 0)) [0..<2]"
    by (simp add: observing_handler_def)
  have u: "[0..<2] = [0, Suc 0]"
    by (simp add: numeral_2_eq_2)
  have d: "deliver_in_order (callbacks observing_handler) (submitted example_run) []
       = [(0, make_sample 1 [1] 1 ''s'' 7 7), (1, make_sample 1 [1] 1 ''s'' 7 7),
          (0, make_sample 2 [2] 2 ''s'' 7 7), (1, make_sample 2 [2] 2 ''s'' 7 7),
          (0, make_sample 3 [3] 3 ''s'' 7 7), (1, make_sample 3 [3] 3 ''s'' 7 7)]"
    by (simp add: s c u deliver_in_order_def observer_def)
  from callbacks_observe_submission_order [OF h1 h2 h3 h4 h5]
  have a: "snd (snd (stream_run (observing_handler, fresh_locals, [])
                       (example_run @ map Work [4, 5, 6])))
           = deliver_in_order (callbacks observing_handler) (submitted example_run) []"
    and b: "\<And>n raises k. callbacks observing_handler = map (\<lambda>j. observer j (raises j)) [0..<n]
         \<Longrightarrow> k < n \<Longrightarrow>
           observed_by k (snd (snd (stream_run (observing_handler, fresh_locals, [])
                                     (example_run @ map Work [4, 5, 6]))))
             = observed_by k [] @ submitted example_run"
    by blast+
  have o: "observed_by 0 (snd (snd (stream_run (observing_handler, fresh_locals, [])
                                     (example_run @ map Work [4, 5, 6]))))
             = observed_by 0 [] @ submitted example_run"
    by (rule b [where raises = "\<lambda>j sample. j = 0" and n = 2]) (simp_all add: c)
  from a d
  have r: "snd (snd (stream_run (observing_handler, fresh_locals, [])
                       (example_run @ map Work [4, 5, 6])))
       = [(0, make_sample 1 [1] 1 ''s'' 7 7), (1, make_sample 1 [1] 1 ''s'' 7 7),
          (0, make_sample 2 [2] 2 ''s'' 7 7), (1, make_sample 2 [2] 2 ''s'' 7 7),
          (0, make_sample 3 [3] 3 ''s'' 7 7), (1, make_sample 3 [3] 3 ''s'' 7 7)]"
    by (rule trans)
  have e0: "observed_by 0 [] @ submitted example_run =
     [make_sample 1 [1] 1 ''s'' 7 7, make_sample 2 [2] 2 ''s'' 7 7,
      make_sample 3 [3] 3 ''s'' 7 7]"
    by (simp add: s observed_by_def)
  from o e0
  have o': "observed_by 0 (snd (snd (stream_run (observing_handler, fresh_locals, [])
                                 (example_run @ map Work [4, 5, 6]))))
       = [make_sample 1 [1] 1 ''s'' 7 7, make_sample 2 [2] 2 ''s'' 7 7,
          make_sample 3 [3] 3 ''s'' 7 7]"
    by (rule trans)
  show ?thesis
    by (intro conjI h1 h2 h3 h4 h5 r o')
qed

section \<open>Properties of the background worker\<close>

lemma execute_task_id: "result_task_id (execute_task m connection now task) = task_id task"
  by (simp add: execute_task_def split: sum.splits)

lemma worker_loop_pass_task:
  assumes "running w" and "task_queue w = task # q"
  shows "worker_loop_pass w env =
     w\<lparr>task_queue := q,
       result_queue := result_queue w @ [execute_task (fst env) (connection_data w) (snd env) task]\<rparr>"
  using assms by (simp add: worker_loop_pass_def)

lemma worker_loop_results:
  assumes "running w" and "length envs \<le> length (task_queue w)"
  shows "running (worker_loop w envs)
     \<and> task_queue (worker_loop w envs) = drop (length envs) (task_queue w)
     \<and> map result_task_id (result_queue (worker_loop w envs))
         = map result_task_id (result_queue w) @ map task_id (take (length envs) (task_queue w))"
  using assms
proof (induction envs arbitrary: w)
  case Nil
  then show ?case by (simp add: worker_loop_def)
next
  case (Cons env envs)
  then obtain task q where tq: "task_queue w = task # q"
    by (cases "task_queue w") auto
  let ?w1 = "worker_loop_pass w env"
  have w1: "?w1 = w\<lparr>task_queue := q,
       result_queue := result_queue w @ [execute_task (fst env) (connection_data w) (snd env) task]\<rparr>"
    using Cons.prems(1) tq by (rule worker_loop_pass_task)
  have r1: "running ?w1" and l1: "length envs \<le> length (task_queue ?w1)"
    using Cons.prems tq by (simp_all add: w1)
  have "worker_loop w (env # envs) = worker_loop ?w1 envs"
    by (simp add: worker_loop_def)
  with Cons.IH [OF r1 l1] show ?case
    by (simp add: w1 tq execute_task_id)
qed

text \<open>The client module the worker imports returns a text from every call: no call of
  it raises, whatever the channel and the stub do.\<close>

lemma bound_client_returns: "\<exists>text. bound_client env c = Inr (PyStr text)"
  by (simp add: bound_client_def)

lemma worker_modules_success:
  assumes quiet: "\<And>c. dm c = None"
    and gains: "task_type task = APPLY_GAINS \<Longrightarrow>
                  params task ''shoulder_gain'' \<noteq> None \<and> params task ''joint_gain'' \<noteq> None"
  shows "success (execute_task (worker_modules env dm) connection now task)"
  using assms
  by (cases "task_type task")
    (auto simp: execute_task_def worker_modules_def try_block_def bound_client_def
       then_manager_def Let_def split: sum.splits option.splits)

text \<open>
  Claim C7 at an input where the code departs from it. The device is switched off, so
  the stub's \<open>Homing\<close> raises \<^verbatim>\<open>grpc.RpcError\<close>. The claim has the worker enqueue a
  result with \<open>success = False\<close> and the exception's message as \<open>error\<close>. The client
  function \<open>send_homing_command\<close> catches the exception and returns the message as its
  value, \<open>_execute_task\<close> takes that value for a result, and the one \<open>TaskResult\<close> the
  pass enqueues has \<open>success = True\<close>, the failure text as \<open>result\<close> and an empty
  \<open>error\<close>. The same holds for every call: the client returns without raising.
\<close>

theorem failed_rpc_reported_as_success:
  "Homing unreachable_env ''GO_HOME'' = Inl unavailable
   \<and> execute_task (worker_modules unreachable_env dm) (''192.168.0.43'', 50051) 10 homing_task
       = \<lparr>result_task_id = ''send_homing_1700000000123'', success = True,
          result = PyStr (''Homing failed: '' @ str_exception unavailable),
          error = [], result_timestamp = 10\<rparr>
   \<and> result_queue
         (worker_loop_pass (started_worker\<lparr>task_queue := [homing_task]\<rparr>)
            (worker_modules unreachable_env dm, 10))
       = [\<lparr>result_task_id = ''send_homing_1700000000123'', success = True,
           result = PyStr (''Homing failed: '' @ str_exception unavailable),
           error = [], result_timestamp = 10\<rparr>]
   \<and> \<not> isl (bound_client env c)"
  by (simp add: execute_task_def worker_modules_def try_block_def bound_client_def
      send_homing_command_def command_field_def unreachable_env_def homing_task_def
      worker_loop_pass_def started_worker_def)

lemma submit_task_fields:
  "fst (submit_task w now created tt ps) = TaskType_value tt @ ''_'' @ str_int (py_int (double_mul now 1000))"
  "task_queue (snd (submit_task w now created tt ps)) =
     task_queue w @ [\<lparr>task_id = TaskType_value tt @ ''_'' @ str_int (py_int (double_mul now 1000)),
                      task_type = tt, params = ps, task_timestamp = created\<rparr>]"
  by (simp_all add: submit_task_def Let_def)






lemma apply_gains_clamps_nonzero:
  assumes "shoulder_gain \<noteq> 0" and "joint_gain \<noteq> 0"
  shows "fst (apply_gains_threaded w now created (Some (Suc n)) (Some shoulder_gain) (Some joint_gain))
     = Some (clamp_gain shoulder_gain, clamp_gain joint_gain)"
  using assms by (simp add: apply_gains_threaded_def or_default_def Let_def)

lemma clamp_gain_range: "2 / 10 \<le> clamp_gain x \<and> clamp_gain x \<le> 1"
  by (simp add: clamp_gain_def)

text \<open>
  Claim C8 at the input where the code departs from it. A shoulder gain of 0 is below
  0.2, so the claim has it dispatched as 0.2; \<open>apply_gains_threaded\<close> reads it through
  \<open>shoulder_gain or 0.6\<close>, takes the default 0.6 for it, submits 0.6 in the task, and the
  client sends 0.6. The client's own clamp, given 0, sends 0.2; and the specification's
  scenario D (1.5 and 0.1) is dispatched as 1.0 and 0.2.
\<close>

theorem zero_gain_takes_default:
  "fst (apply_gains_threaded w now created (Some 1) (Some 0) (Some (1 / 10)))
     = Some (6 / 10, 2 / 10)
   \<and> params (last (task_queue (snd (apply_gains_threaded w now created (Some 1) (Some 0)
                                      (Some (1 / 10)))))) ''shoulder_gain''
       = Some (PyFloat (6 / 10))
   \<and> fst (send_gravity_comp_gain reachable_env ip port (6 / 10) (2 / 10))
       = Some (6 / 10, 2 / 10)
   \<and> fst (send_gravity_comp_gain reachable_env ip port 0 (1 / 10)) = Some (2 / 10, 2 / 10)
   \<and> fst (apply_gains_threaded w now created (Some 1) (Some (15 / 10)) (Some (1 / 10)))
       = Some (1, 2 / 10)"
  by (simp add: apply_gains_threaded_def or_default_def clamp_gain_def Let_def
      submit_task_fields send_gravity_comp_gain_def reachable_env_def)

end
